theory Spec2Isabelle
  imports Main "HOL-Library.AList"
begin

section \<open>JavaScript values and the object store\<close>

text \<open>
  The editor (\<^verbatim>\<open>App\<close>, the file with the editable form) keeps its document in React
  state as a reference to a JavaScript object. Objects and arrays are mutable and are
  shared by reference, and one of the edit paths assigns to a property of an object that
  an earlier document still refers to, so the embedding has an explicit store: a value is
  a primitive or the address of a cell, and a cell is an object (its own properties, in
  insertion order) or an array.

  Numbers and booleans are left out: the declared \<^verbatim>\<open>ResumeData\<close> has no field of
  either type and no code path computes with them.
\<close>

type_synonym addr = nat

datatype val = VUndef | VNull | VStr string | VRef addr

datatype cell = Obj "(string \<times> val) list" | Arr "val list"

type_synonym heap = "cell list"

text \<open>
  What a \<^verbatim>\<open>throw\<close> carries: an instance of \<^verbatim>\<open>Error\<close> with its message, or any
  other value (the \<^verbatim>\<open>catch\<close> of \<^verbatim>\<open>handleUpload\<close> tells the two apart with
  \<^verbatim>\<open>instanceof\<close>). A computation stops either by throwing or by leaving what this
  embedding covers (\<open>Unmodelled\<close>: a runtime shape outside the declared TypeScript
  types whose JavaScript meaning needs machinery absent here, or an address that is not
  allocated, which JavaScript cannot produce).
\<close>

datatype thrown = ErrorObj string | OtherValue

datatype stop = Throws thrown | Unmodelled

text \<open>The messages of engine-raised \<^verbatim>\<open>TypeError\<close>s are the engine's; V8's wording is used.\<close>

definition not_iterable :: thrown where
  "not_iterable = ErrorObj ''object is not iterable''"

definition cannot_read :: thrown where
  "cannot_read = ErrorObj ''Cannot read properties of null or undefined''"

definition cannot_set :: thrown where
  "cannot_set = ErrorObj ''Cannot set properties of a primitive value''"

fun truthy :: "val \<Rightarrow> bool" where
  "truthy VUndef = False"
| "truthy VNull = False"
| "truthy (VStr s) = (s \<noteq> [])"
| "truthy (VRef a) = True"

definition alloc :: "cell \<Rightarrow> heap \<Rightarrow> addr \<times> heap" where
  "alloc c h = (length h, h @ [c])"

definition cell_at :: "heap \<Rightarrow> addr \<Rightarrow> cell option" where
  "cell_at h a = (if a < length h then Some (h ! a) else None)"

definition lookup :: "(string \<times> val) list \<Rightarrow> string \<Rightarrow> val" where
  \<comment> \<open>reading an own property; a missing one reads as \<^verbatim>\<open>undefined\<close>\<close>
  "lookup ps k = (case map_of ps k of None \<Rightarrow> VUndef | Some v \<Rightarrow> v)"

fun own_props :: "heap \<Rightarrow> val \<Rightarrow> stop + (string \<times> val) list" where
  \<comment> \<open>what \<^verbatim>\<open>{ ...v }\<close> copies: the own properties of an object, nothing for
      \<^verbatim>\<open>null\<close> and \<^verbatim>\<open>undefined\<close>. A string or an array would contribute
      index-named properties; the document is declared an object, so that is not modelled.\<close>
  "own_props h VUndef = Inr []"
| "own_props h VNull = Inr []"
| "own_props h (VStr s) = Inl Unmodelled"
| "own_props h (VRef a) =
     (case cell_at h a of
        Some (Obj ps) \<Rightarrow> Inr ps
      | Some (Arr vs) \<Rightarrow> Inl Unmodelled
      | None \<Rightarrow> Inl Unmodelled)"

fun get_opt :: "heap \<Rightarrow> val \<Rightarrow> string \<Rightarrow> stop + val" where
  \<comment> \<open>\<^verbatim>\<open>v?.k\<close> for a name \<open>k\<close> that is neither \<^verbatim>\<open>length\<close> nor an index (every
      name this program reads is a field name): strings and arrays have no such property.\<close>
  "get_opt h VUndef k = Inr VUndef"
| "get_opt h VNull k = Inr VUndef"
| "get_opt h (VStr s) k = Inr VUndef"
| "get_opt h (VRef a) k =
     (case cell_at h a of
        Some (Obj ps) \<Rightarrow> Inr (lookup ps k)
      | Some (Arr vs) \<Rightarrow> Inr VUndef
      | None \<Rightarrow> Inl Unmodelled)"

fun get_prop :: "heap \<Rightarrow> val \<Rightarrow> string \<Rightarrow> stop + val" where
  \<comment> \<open>\<^verbatim>\<open>v.k\<close>: as \<^verbatim>\<open>v?.k\<close>, but \<^verbatim>\<open>null\<close> and \<^verbatim>\<open>undefined\<close> throw\<close>
  "get_prop h VUndef k = Inl (Throws cannot_read)"
| "get_prop h VNull k = Inl (Throws cannot_read)"
| "get_prop h v k = get_opt h v k"

fun spread :: "heap \<Rightarrow> val \<Rightarrow> stop + val list" where
  \<comment> \<open>the elements \<^verbatim>\<open>[...v]\<close> iterates: those of an array, the characters of a string;
      anything else is not iterable\<close>
  "spread h VUndef = Inl (Throws not_iterable)"
| "spread h VNull = Inl (Throws not_iterable)"
| "spread h (VStr s) = Inr (map (\<lambda>c. VStr [c]) s)"
| "spread h (VRef a) =
     (case cell_at h a of
        Some (Arr vs) \<Rightarrow> Inr vs
      | Some (Obj ps) \<Rightarrow> Inl (Throws not_iterable)
      | None \<Rightarrow> Inl Unmodelled)"

fun set_prop :: "heap \<Rightarrow> val \<Rightarrow> string \<Rightarrow> val \<Rightarrow> stop + heap" where
  \<comment> \<open>\<^verbatim>\<open>target.k = v\<close> in strict mode (an ES module), for a name \<open>k\<close> that is not an
      index: the object at the target's address is changed in place. A named property on
      an array is not modelled.\<close>
  "set_prop h VUndef k v = Inl (Throws cannot_set)"
| "set_prop h VNull k v = Inl (Throws cannot_set)"
| "set_prop h (VStr s) k v = Inl (Throws cannot_set)"
| "set_prop h (VRef a) k v =
     (case cell_at h a of
        Some (Obj ps) \<Rightarrow> Inr (h[a := Obj (AList.update k v ps)])
      | Some (Arr vs) \<Rightarrow> Inl Unmodelled
      | None \<Rightarrow> Inl Unmodelled)"

definition index :: "val list \<Rightarrow> nat \<Rightarrow> val" where
  \<comment> \<open>\<^verbatim>\<open>xs[i]\<close>: past the end it reads \<^verbatim>\<open>undefined\<close>\<close>
  "index xs i = (if i < length xs then xs ! i else VUndef)"

definition splice :: "int \<Rightarrow> 'a list \<Rightarrow> 'a list" where
  \<comment> \<open>what \<^verbatim>\<open>xs.splice(i, 1)\<close> leaves in \<open>xs\<close>, for an integral \<open>i\<close>: a negative start
      counts from the end, a start past the end is the end, and at most one element goes\<close>
  "splice i xs =
     (let len = int (length xs);
          start = (if i < 0 then max (len + i) 0 else min i len);
          deleteCount = min 1 (len - start)
      in take (nat start) xs @ drop (nat (start + deleteCount)) xs)"

section \<open>The editor's state\<close>

text \<open>
  The five \<^verbatim>\<open>useState\<close> cells of \<^verbatim>\<open>App\<close>, the store they point into, and the
  console (the save handler reports there). The selected \<^verbatim>\<open>File\<close> is kept by name only.
\<close>

record app =
  file_cell :: "string option"
  parsedData :: val
  pdfUrl :: val
  loading :: bool
  error :: "string option"
  console :: "(string \<times> thrown) list"
  store :: heap

definition initial :: app where
  "initial = \<lparr>file_cell = None, parsedData = VNull, pdfUrl = VNull, loading = False,
              error = None, console = [], store = []\<rparr>"

section \<open>Field Binder\<close>

definition handleFieldChange :: "string \<Rightarrow> val \<Rightarrow> app \<Rightarrow> stop + app" where
  \<comment> \<open>\<^verbatim>\<open>setParsedData((prev) => prev ? { ...prev, [field]: value } : { [field]: value })\<close>\<close>
  "handleFieldChange field value st =
     (let prev = parsedData st in
      if truthy prev then
        (case own_props (store st) prev of
           Inl e \<Rightarrow> Inl e
         | Inr ps \<Rightarrow>
             let (a, h) = alloc (Obj (AList.update field value ps)) (store st)
             in Inr (st\<lparr>parsedData := VRef a, store := h\<rparr>))
      else
        let (a, h) = alloc (Obj [(field, value)]) (store st)
        in Inr (st\<lparr>parsedData := VRef a, store := h\<rparr>))"

section \<open>List Editor\<close>

definition seq :: "stop + 'a \<Rightarrow> ('a \<Rightarrow> stop + 'b) \<Rightarrow> stop + 'b" where
  \<comment> \<open>statement sequencing: a stop in the first statement skips the rest\<close>
  "seq r f = (case r of Inl e \<Rightarrow> Inl e | Inr x \<Rightarrow> f x)"

text \<open>
  In each handler \<^verbatim>\<open>updated\<close> is a fresh array that nothing else refers to until it is
  handed to \<^verbatim>\<open>handleFieldChange\<close>; it is a list while it is local and gets its cell
  then. Its elements are the values of the old array: the entries are shared, not copied.
\<close>

definition addEducation :: "app \<Rightarrow> stop + app" where
  "addEducation st =
     seq (get_opt (store st) (parsedData st) ''education'') (\<lambda>education.
     seq (if truthy education then spread (store st) education else Inr []) (\<lambda>xs.
       let (entry, h1) = alloc (Obj [(''degree'', VStr ''''), (''institution'', VStr ''''),
                                     (''start_year'', VStr ''''), (''end_year'', VStr ''''),
                                     (''description'', VStr '''')]) (store st);
           (updated, h2) = alloc (Arr (xs @ [VRef entry])) h1
       in handleFieldChange ''education'' (VRef updated) (st\<lparr>store := h2\<rparr>)))"

definition removeEducation :: "int \<Rightarrow> app \<Rightarrow> stop + app" where
  "removeEducation i st =
     seq (get_opt (store st) (parsedData st) ''education'') (\<lambda>education.
     seq (if truthy education then spread (store st) education else Inr []) (\<lambda>xs.
       let (updated, h1) = alloc (Arr (splice i xs)) (store st)
       in handleFieldChange ''education'' (VRef updated) (st\<lparr>store := h1\<rparr>)))"

definition addExperience :: "app \<Rightarrow> stop + app" where
  "addExperience st =
     seq (get_opt (store st) (parsedData st) ''experience'') (\<lambda>experience.
     seq (if truthy experience then spread (store st) experience else Inr []) (\<lambda>xs.
       let (lines, h0) = alloc (Arr [VStr '''']) (store st);
           (entry, h1) = alloc (Obj [(''company'', VStr ''''), (''title'', VStr ''''),
                                     (''start_year'', VStr ''''), (''end_year'', VStr ''''),
                                     (''description'', VRef lines)]) h0;
           (updated, h2) = alloc (Arr (xs @ [VRef entry])) h1
       in handleFieldChange ''experience'' (VRef updated) (st\<lparr>store := h2\<rparr>)))"

definition removeExperience :: "int \<Rightarrow> app \<Rightarrow> stop + app" where
  "removeExperience i st =
     seq (get_opt (store st) (parsedData st) ''experience'') (\<lambda>experience.
     seq (if truthy experience then spread (store st) experience else Inr []) (\<lambda>xs.
       let (updated, h1) = alloc (Arr (splice i xs)) (store st)
       in handleFieldChange ''experience'' (VRef updated) (st\<lparr>store := h1\<rparr>)))"

definition addProject :: "app \<Rightarrow> stop + app" where
  "addProject st =
     seq (get_opt (store st) (parsedData st) ''projects'') (\<lambda>projects.
     seq (if truthy projects then spread (store st) projects else Inr []) (\<lambda>xs.
       let (lines, h0) = alloc (Arr [VStr '''']) (store st);
           (entry, h1) = alloc (Obj [(''project_name'', VStr ''''),
                                     (''start_year'', VStr ''''), (''end_year'', VStr ''''),
                                     (''description'', VRef lines)]) h0;
           (updated, h2) = alloc (Arr (xs @ [VRef entry])) h1
       in handleFieldChange ''projects'' (VRef updated) (st\<lparr>store := h2\<rparr>)))"

definition removeProject :: "int \<Rightarrow> app \<Rightarrow> stop + app" where
  "removeProject i st =
     seq (get_opt (store st) (parsedData st) ''projects'') (\<lambda>projects.
     seq (if truthy projects then spread (store st) projects else Inr []) (\<lambda>xs.
       let (updated, h1) = alloc (Arr (splice i xs)) (store st)
       in handleFieldChange ''projects'' (VRef updated) (st\<lparr>store := h1\<rparr>)))"

text \<open>
  The \<^verbatim>\<open>onChange\<close> closures of the entry widgets all have one body,
  \<^verbatim>\<open>const updated = [...parsedData.f!]; updated[i].s = value; handleFieldChange("f", updated);\<close>
  for the list field \<open>f\<close> and subfield \<open>s\<close> of \<open>entry_widgets\<close> below; \<open>i\<close> is the index
  \<^verbatim>\<open>map\<close> passed when the entry was rendered. The array is copied, the entry is not: the
  assignment writes into the object that the current document's array holds.
\<close>

definition updateEntryField :: "string \<Rightarrow> nat \<Rightarrow> string \<Rightarrow> val \<Rightarrow> app \<Rightarrow> stop + app" where
  "updateEntryField f i s value st =
     seq (get_prop (store st) (parsedData st) f) (\<lambda>list.
     seq (spread (store st) list) (\<lambda>xs.
     seq (set_prop (store st) (index xs i) s value) (\<lambda>h1.
       let (updated, h2) = alloc (Arr xs) h1
       in handleFieldChange f (VRef updated) (st\<lparr>store := h2\<rparr>))))"

definition entry_widgets :: "(string \<times> string) list" where
  "entry_widgets =
     [(''education'', ''degree''), (''education'', ''institution''),
      (''education'', ''start_year''), (''education'', ''end_year''),
      (''education'', ''description''),
      (''experience'', ''company''), (''experience'', ''title''),
      (''experience'', ''start_year''), (''experience'', ''end_year''),
      (''experience'', ''description''),
      (''projects'', ''project_name''), (''projects'', ''start_year''),
      (''projects'', ''end_year''), (''projects'', ''description'')]"

section \<open>Text widgets over lists\<close>

fun split_on :: "char \<Rightarrow> string \<Rightarrow> string list" where
  \<comment> \<open>\<^verbatim>\<open>text.split(c)\<close> for a one-character separator; the empty text gives one empty piece\<close>
  "split_on c [] = [[]]"
| "split_on c (x # xs) =
     (if x = c then [] # split_on c xs
      else (case split_on c xs of [] \<Rightarrow> [[x]] | p # ps \<Rightarrow> (x # p) # ps))"

fun join :: "string \<Rightarrow> string list \<Rightarrow> string" where
  "join sep [] = []"
| "join sep [x] = x"
| "join sep (x # y # ys) = x @ sep @ join sep (y # ys)"

fun text_of :: "val \<Rightarrow> stop + string" where
  \<comment> \<open>how \<^verbatim>\<open>Array.prototype.join\<close> renders an element; the lists are declared
      \<^verbatim>\<open>string[]\<close>, so an element that is an object or an array is not modelled\<close>
  "text_of VUndef = Inr []"
| "text_of VNull = Inr []"
| "text_of (VStr s) = Inr s"
| "text_of (VRef a) = Inl Unmodelled"

fun texts_of :: "val list \<Rightarrow> stop + string list" where
  "texts_of [] = Inr []"
| "texts_of (v # vs) = seq (text_of v) (\<lambda>s. seq (texts_of vs) (\<lambda>ss. Inr (s # ss)))"

definition not_a_function :: thrown where
  "not_a_function = ErrorObj ''join is not a function''"

definition bulk_value :: "string \<Rightarrow> app \<Rightarrow> stop + string" where
  \<comment> \<open>the \<^verbatim>\<open>value\<close> of a bulk textarea: \<^verbatim>\<open>parsedData.f?.join(", ") || ""\<close>\<close>
  "bulk_value f st =
     seq (get_prop (store st) (parsedData st) f) (\<lambda>list.
       case list of
         VUndef \<Rightarrow> Inr ''''
       | VNull \<Rightarrow> Inr ''''
       | VStr s \<Rightarrow> Inl (Throws not_a_function)
       | VRef a \<Rightarrow>
           (case cell_at (store st) a of
              Some (Arr vs) \<Rightarrow> seq (texts_of vs) (\<lambda>ss. Inr (join '', '' ss))
            | Some (Obj ps) \<Rightarrow> Inl (Throws not_a_function)
            | None \<Rightarrow> Inl Unmodelled))"

definition bulk_onChange :: "string \<Rightarrow> string \<Rightarrow> app \<Rightarrow> stop + app" where
  \<comment> \<open>the \<^verbatim>\<open>onChange\<close> of a bulk textarea:
      \<^verbatim>\<open>handleFieldChange("f", e.target.value.split(","))\<close>\<close>
  "bulk_onChange f text st =
     (let (pieces, h) = alloc (Arr (map VStr (split_on CHR '','' text))) (store st)
      in handleFieldChange f (VRef pieces) (st\<lparr>store := h\<rparr>))"

definition lines_onChange :: "string \<Rightarrow> nat \<Rightarrow> string \<Rightarrow> app \<Rightarrow> stop + app" where
  \<comment> \<open>the description textarea of an experience or project entry:
      \<^verbatim>\<open>updated[i].description = e.target.value.split("\n")\<close>\<close>
  "lines_onChange f i text st =
     (let (pieces, h) = alloc (Arr (map VStr (split_on CHR 0x0A text))) (store st)
      in updateEntryField f i ''description'' (VRef pieces) (st\<lparr>store := h\<rparr>))"

section \<open>Session Controller\<close>

text \<open>
  The backend is outside the repository. What it and the network do in one request is an
  input of the handler: \<^verbatim>\<open>fetch\<close> rejects with some thrown value, or resolves to a
  response with its \<^verbatim>\<open>ok\<close> flag and \<^verbatim>\<open>statusText\<close>, whose \<^verbatim>\<open>json()\<close> in turn
  rejects (the body is not JSON) or resolves to the parsed body. As with the values of the
  store, a body is built from \<^verbatim>\<open>null\<close>, strings, arrays and objects.
\<close>

datatype json = JNull | JStr string | JArr "json list" | JObj "(string \<times> json) list"

datatype body = BodyThrows thrown | Body json

datatype response = Rejected thrown | Response bool string body

fun alloc_json :: "json \<Rightarrow> heap \<Rightarrow> val \<times> heap"
  and alloc_elems :: "json list \<Rightarrow> heap \<Rightarrow> val list \<times> heap"
  and alloc_members :: "(string \<times> json) list \<Rightarrow> heap \<Rightarrow> (string \<times> val) list \<times> heap"
where
  \<comment> \<open>the objects \<^verbatim>\<open>res.json()\<close> builds: every array and object of the body is a new
      cell; of two members with one name the later value stays, at the earlier place\<close>
  "alloc_json JNull h = (VNull, h)"
| "alloc_json (JStr s) h = (VStr s, h)"
| "alloc_json (JArr js) h =
     (let (vs, h1) = alloc_elems js h; (a, h2) = alloc (Arr vs) h1 in (VRef a, h2))"
| "alloc_json (JObj ms) h =
     (let (ps, h1) = alloc_members ms h; (a, h2) = alloc (Obj ps) h1 in (VRef a, h2))"
| "alloc_elems [] h = ([], h)"
| "alloc_elems (j # js) h =
     (let (v, h1) = alloc_json j h; (vs, h2) = alloc_elems js h1 in (v # vs, h2))"
| "alloc_members [] h = ([], h)"
| "alloc_members ((k, j) # ms) h =
     (let (v, h1) = alloc_json j h; (ps, h2) = alloc_members ms h1
      in ((k, case map_of ps k of None \<Rightarrow> v | Some w \<Rightarrow> w) # AList.delete k ps, h2))"

definition upload_try :: "response \<Rightarrow> app \<Rightarrow> stop + app" where
  \<comment> \<open>the \<^verbatim>\<open>try\<close> block of \<^verbatim>\<open>handleUpload\<close>; no state is written before a throw\<close>
  "upload_try r st =
     (case r of
        Rejected err \<Rightarrow> Inl (Throws err)
      | Response ok statusText b \<Rightarrow>
          if \<not> ok then Inl (Throws (ErrorObj (''Upload failed: '' @ statusText)))
          else
            (case b of
               BodyThrows err \<Rightarrow> Inl (Throws err)
             | Body j \<Rightarrow>
                 let (data, h) = alloc_json j (store st) in
                 seq (get_prop h data ''parsed'') (\<lambda>parsed.
                   if truthy parsed then
                     seq (get_prop h data ''pdf_url'') (\<lambda>url.
                       Inr (st\<lparr>parsedData := parsed, pdfUrl := url, store := h\<rparr>))
                   else
                     Inr (st\<lparr>error := Some ''Parsing failed. Please try another resume.'',
                             store := h\<rparr>))))"

definition handleUpload :: "response \<Rightarrow> app \<Rightarrow> stop + app" where
  "handleUpload r st =
     (if file_cell st = None then Inr st
      else
        let st1 = st\<lparr>loading := True, error := None\<rparr> in
        (case upload_try r st1 of
           Inr st2 \<Rightarrow> Inr (st2\<lparr>loading := False\<rparr>)
         | Inl (Throws (ErrorObj message)) \<Rightarrow>
             Inr (st1\<lparr>error := Some message, loading := False\<rparr>)
         | Inl (Throws OtherValue) \<Rightarrow>
             Inr (st1\<lparr>error := Some ''An unknown error occurred.'', loading := False\<rparr>)
         | Inl Unmodelled \<Rightarrow> Inl Unmodelled))"

fun finite_depth :: "nat \<Rightarrow> heap \<Rightarrow> val \<Rightarrow> bool" where
  \<comment> \<open>every path of references from the value ends within \<open>n\<close> cells\<close>
  "finite_depth n h VUndef = True"
| "finite_depth n h VNull = True"
| "finite_depth n h (VStr s) = True"
| "finite_depth 0 h (VRef a) = False"
| "finite_depth (Suc n) h (VRef a) =
     (case cell_at h a of
        None \<Rightarrow> True
      | Some (Arr vs) \<Rightarrow> list_all (finite_depth n h) vs
      | Some (Obj ps) \<Rightarrow> list_all (\<lambda>p. finite_depth n h (snd p)) ps)"

definition serialisable :: "heap \<Rightarrow> val \<Rightarrow> bool" where
  \<comment> \<open>\<^verbatim>\<open>JSON.stringify\<close> throws on a value that reaches itself, and on nothing else here.
      A path through more cells than the store has repeats one.\<close>
  "serialisable h v = finite_depth (length h) h v"

definition circular :: thrown where
  "circular = ErrorObj ''Converting circular structure to JSON''"

function show_nat :: "nat \<Rightarrow> string" where
  \<comment> \<open>the decimal digits of a number\<close>
  "show_nat n =
     (if n < 10 then [''0123456789'' ! n]
      else show_nat (n div 10) @ [''0123456789'' ! (n mod 10)])"
  by pat_completeness auto
termination
  by (relation "measure id") auto

declare show_nat.simps [simp del]

fun concat_text :: "val \<Rightarrow> string \<Rightarrow> stop + string" where
  \<comment> \<open>\<^verbatim>\<open>v + text\<close>; converting an object or array to text is not modelled\<close>
  "concat_text VUndef t = Inr (''undefined'' @ t)"
| "concat_text VNull t = Inr (''null'' @ t)"
| "concat_text (VStr s) t = Inr (s @ t)"
| "concat_text (VRef a) t = Inl Unmodelled"

definition save_try :: "response \<Rightarrow> nat \<Rightarrow> app \<Rightarrow> stop + app" where
  \<comment> \<open>the \<^verbatim>\<open>try\<close> block of the save button's \<^verbatim>\<open>onClick\<close>; \<open>now\<close> is
      \<^verbatim>\<open>new Date().getTime()\<close>. There is no test of \<^verbatim>\<open>res.ok\<close>.\<close>
  "save_try r now st =
     (if \<not> serialisable (store st) (parsedData st) then Inl (Throws circular)
      else
        (case r of
           Rejected err \<Rightarrow> Inl (Throws err)
         | Response ok statusText b \<Rightarrow>
             (case b of
                BodyThrows err \<Rightarrow> Inl (Throws err)
              | Body j \<Rightarrow>
                  let (data, h) = alloc_json j (store st) in
                  seq (get_prop h data ''pdf_url'') (\<lambda>url.
                    if truthy url then
                      seq (concat_text url (''?t='' @ show_nat now)) (\<lambda>u.
                        Inr (st\<lparr>pdfUrl := VStr u, store := h\<rparr>))
                    else Inr (st\<lparr>store := h\<rparr>)))))"

definition save :: "response \<Rightarrow> nat \<Rightarrow> app \<Rightarrow> stop + app" where
  \<comment> \<open>the save button's \<^verbatim>\<open>onClick\<close>; the \<^verbatim>\<open>catch\<close> writes to the console only\<close>
  "save r now st =
     (if \<not> truthy (parsedData st) then Inr st
      else
        (case save_try r now st of
           Inr st1 \<Rightarrow> Inr st1
         | Inl (Throws err) \<Rightarrow> Inr (st\<lparr>console := console st @ [(''Update failed'', err)]\<rparr>)
         | Inl Unmodelled \<Rightarrow> Inl Unmodelled))"

section \<open>Reading a document by value\<close>

datatype tree = TUndef | TNull | TStr string | TArr "tree list" | TObj "(string \<times> tree) list" | TCut

fun snapshot :: "nat \<Rightarrow> heap \<Rightarrow> val \<Rightarrow> tree" where
  \<comment> \<open>the value as a tree, \<open>n\<close> cells deep; \<open>TCut\<close> where the depth runs out\<close>
  "snapshot n h VUndef = TUndef"
| "snapshot n h VNull = TNull"
| "snapshot n h (VStr s) = TStr s"
| "snapshot 0 h (VRef a) = TCut"
| "snapshot (Suc n) h (VRef a) =
     (case cell_at h a of
        None \<Rightarrow> TCut
      | Some (Arr vs) \<Rightarrow> TArr (map (snapshot n h) vs)
      | Some (Obj ps) \<Rightarrow> TObj (map (\<lambda>p. (fst p, snapshot n h (snd p))) ps))"

section \<open>The document as the specification sees it\<close>

definition props :: "app \<Rightarrow> (string \<times> val) list option" where
  \<comment> \<open>the own properties of the current document; none when no document is loaded\<close>
  "props st =
     (case parsedData st of
        VNull \<Rightarrow> Some []
      | VRef d \<Rightarrow> (case cell_at (store st) d of Some (Obj ps) \<Rightarrow> Some ps | _ \<Rightarrow> None)
      | _ \<Rightarrow> None)"

definition document :: "app \<Rightarrow> (string \<rightharpoonup> val) option" where
  \<comment> \<open>the current document as a mapping from field names to values; the absent document
      is the empty mapping\<close>
  "document st = map_option map_of (props st)"

definition array_at :: "heap \<Rightarrow> val \<Rightarrow> val list option" where
  "array_at h v =
     (case v of
        VRef a \<Rightarrow> (case cell_at h a of Some (Arr vs) \<Rightarrow> Some vs | _ \<Rightarrow> None)
      | _ \<Rightarrow> None)"

definition object_at :: "heap \<Rightarrow> val \<Rightarrow> (string \<rightharpoonup> val) option" where
  "object_at h v =
     (case v of
        VRef a \<Rightarrow> (case cell_at h a of Some (Obj ps) \<Rightarrow> Some (map_of ps) | _ \<Rightarrow> None)
      | _ \<Rightarrow> None)"

definition elements :: "app \<Rightarrow> string \<Rightarrow> val list option" where
  \<comment> \<open>the entries of list field \<open>f\<close> of the current document, the empty list when the
      field is absent; none when \<open>f\<close> holds something that is not an array\<close>
  "elements st f =
     (case document st of
        None \<Rightarrow> None
      | Some D \<Rightarrow> (case D f of None \<Rightarrow> Some [] | Some v \<Rightarrow> array_at (store st) v))"

fun cell_vals :: "cell \<Rightarrow> val list" where
  "cell_vals (Arr vs) = vs"
| "cell_vals (Obj ps) = map snd ps"

fun allocated :: "heap \<Rightarrow> val \<Rightarrow> bool" where
  "allocated h (VRef a) = (a < length h)"
| "allocated h v = True"

definition closed :: "heap \<Rightarrow> bool" where
  \<comment> \<open>every reference held in the store is to a cell of the store\<close>
  "closed h = list_all (\<lambda>c. list_all (allocated h) (cell_vals c)) h"

fun reaches :: "nat \<Rightarrow> heap \<Rightarrow> addr \<Rightarrow> val \<Rightarrow> bool" where
  \<comment> \<open>cell \<open>e\<close> is among the cells that \<open>snapshot n h v\<close> reads\<close>
  "reaches n h e VUndef = False"
| "reaches n h e VNull = False"
| "reaches n h e (VStr s) = False"
| "reaches 0 h e (VRef a) = False"
| "reaches (Suc n) h e (VRef a) =
     (a = e \<or> (case cell_at h a of
                 None \<Rightarrow> False
               | Some c \<Rightarrow> list_ex (reaches n h e) (cell_vals c)))"

text \<open>
  The specification's \<^verbatim>\<open>append(document, fieldName)\<close> and
  \<^verbatim>\<open>removeAt(document, fieldName, index)\<close> name the three pairs of handlers, one pair
  for each list field.
\<close>

definition list_fields :: "string list" where
  "list_fields = [''education'', ''experience'', ''projects'']"

definition append_entry :: "string \<Rightarrow> app \<Rightarrow> stop + app" where
  "append_entry f st =
     (if f = ''education'' then addEducation st
      else if f = ''experience'' then addExperience st
      else if f = ''projects'' then addProject st
      else Inl Unmodelled)"

definition removeAt :: "string \<Rightarrow> int \<Rightarrow> app \<Rightarrow> stop + app" where
  "removeAt f i st =
     (if f = ''education'' then removeEducation i st
      else if f = ''experience'' then removeExperience i st
      else if f = ''projects'' then removeProject i st
      else Inl Unmodelled)"

definition default_entry :: "string \<Rightarrow> tree" where
  \<comment> \<open>the entry the specification asks of \<^verbatim>\<open>append\<close>: every text subfield the empty
      string, every list subfield the list of one empty string\<close>
  "default_entry f =
     (if f = ''education'' then
        TObj [(''degree'', TStr ''''), (''institution'', TStr ''''), (''start_year'', TStr ''''),
              (''end_year'', TStr ''''), (''description'', TStr '''')]
      else if f = ''experience'' then
        TObj [(''company'', TStr ''''), (''title'', TStr ''''), (''start_year'', TStr ''''),
              (''end_year'', TStr ''''), (''description'', TArr [TStr ''''])]
      else
        TObj [(''project_name'', TStr ''''), (''start_year'', TStr ''''),
              (''end_year'', TStr ''''), (''description'', TArr [TStr ''''])])"

section \<open>A session to run the handlers on\<close>

definition selected :: app where
  \<comment> \<open>a file has been chosen, nothing is loaded\<close>
  "selected = initial\<lparr>file_cell := Some ''cv.pdf''\<rparr>"

definition jane_response :: response where
  "jane_response =
     Response True ''OK'' (Body (JObj
       [(''parsed'', JObj
           [(''full_name'', JStr ''Jane Doe''),
            (''education'',
               JArr [JObj [(''degree'', JStr ''BSc''), (''institution'', JStr ''MIT'')],
                     JObj [(''degree'', JStr ''MSc''), (''institution'', JStr ''ETH'')]]),
            (''technical_skills'', JArr [JStr ''Go'', JStr ''Rust, Cargo''])]),
        (''pdf_url'', JStr ''http://x/r1.pdf'')]))"

definition jane_store :: heap where
  "jane_store =
     [Obj [(''degree'', VStr ''BSc''), (''institution'', VStr ''MIT'')],
      Obj [(''degree'', VStr ''MSc''), (''institution'', VStr ''ETH'')],
      Arr [VRef 0, VRef 1],
      Arr [VStr ''Go'', VStr ''Rust, Cargo''],
      Obj [(''full_name'', VStr ''Jane Doe''), (''education'', VRef 2),
           (''technical_skills'', VRef 3)],
      Obj [(''parsed'', VRef 4), (''pdf_url'', VStr ''http://x/r1.pdf'')]]"

definition loaded :: app where
  \<comment> \<open>the session after \<open>jane_response\<close> has answered the upload\<close>
  "loaded = \<lparr>file_cell = Some ''cv.pdf'', parsedData = VRef 4,
             pdfUrl = VStr ''http://x/r1.pdf'', loading = False, error = None,
             console = [], store = jane_store\<rparr>"

definition knot :: app where
  \<comment> \<open>a session whose document holds itself; \<^verbatim>\<open>JSON.stringify\<close> throws on it\<close>
  "knot = initial\<lparr>parsedData := VRef 0, store := [Obj [(''self'', VRef 0)]]\<rparr>"

text \<open>The state a handler leaves when it publishes the list \<open>ys\<close> as field \<open>f\<close>, after
  allocating the cells \<open>fresh\<close>.\<close>

definition published :: "app \<Rightarrow> cell list \<Rightarrow> string \<Rightarrow> val list \<Rightarrow> (string \<times> val) list \<Rightarrow> app" where
  "published st fresh f ys ps =
     st\<lparr>parsedData := VRef (length (store st) + length fresh + 1),
        store := store st @ fresh @
                 [Arr ys, Obj (AList.update f (VRef (length (store st) + length fresh)) ps)]\<rparr>"

section \<open>The three kinds of failure\<close>

text \<open>
  The specification's taxonomy, read off a response: the request never got an answer
  (\<open>transport_error\<close>), the answer has a non-success status (\<open>server_error\<close>), or the
  status is a success and the body has no \<^verbatim>\<open>parsed\<close> member (\<open>parse_failure\<close>; a body
  that is not an object has no members, and one that is not JSON has no body at all).
\<close>

fun member :: "json \<Rightarrow> string \<Rightarrow> json option" where
  "member (JObj ms) k = map_of (rev ms) k"
| "member j k = None"

fun transport_error :: "response \<Rightarrow> bool" where
  "transport_error (Rejected err) = True"
| "transport_error (Response ok statusText b) = False"

fun server_error :: "response \<Rightarrow> bool" where
  "server_error (Rejected err) = False"
| "server_error (Response ok statusText b) = (\<not> ok)"

fun parse_failure :: "response \<Rightarrow> bool" where
  "parse_failure (Rejected err) = False"
| "parse_failure (Response ok statusText (BodyThrows err)) = ok"
| "parse_failure (Response ok statusText (Body j)) = (ok \<and> member j ''parsed'' = None)"

definition upload_failure :: "response \<Rightarrow> bool" where
  "upload_failure r = (transport_error r \<or> server_error r \<or> parse_failure r)"

text \<open>
  The wording of a rejection is the platform's (\<^verbatim>\<open>Failed to fetch\<close> in one browser,
  \<^verbatim>\<open>Load failed\<close> in another); \<^verbatim>\<open>handleUpload\<close> shows it as it is.
\<close>

fun worded :: "thrown \<Rightarrow> bool" where
  "worded (ErrorObj message) = (message \<noteq> [])"
| "worded OtherValue = True"

fun platform_worded :: "response \<Rightarrow> bool" where
  "platform_worded (Rejected err) = worded err"
| "platform_worded (Response ok statusText (BodyThrows err)) = worded err"
| "platform_worded (Response ok statusText (Body j)) = True"

fun pdf_url_text :: "response \<Rightarrow> bool" where
  \<comment> \<open>the body's \<^verbatim>\<open>pdf_url\<close>, when it has one, is a string or \<^verbatim>\<open>null\<close>, as the
      interface \<^verbatim>\<open>{ pdf_url: string }\<close> has it\<close>
  "pdf_url_text (Response ok statusText (Body j)) =
     (case member j ''pdf_url'' of Some (JArr js) \<Rightarrow> False | Some (JObj ms) \<Rightarrow> False | _ \<Rightarrow> True)"
| "pdf_url_text r = True"

text \<open>How a JSON value shows at the top once it is in the store.\<close>

fun shallow :: "json \<Rightarrow> val \<Rightarrow> bool" where
  "shallow JNull v = (v = VNull)"
| "shallow (JStr s) v = (v = VStr s)"
| "shallow (JArr js) v = (\<exists>a. v = VRef a)"
| "shallow (JObj ms) v = (\<exists>a. v = VRef a)"

section \<open>The store under allocation\<close>

lemma cell_at_append:
  "cell_at (h @ [c]) a = (if a < length h then cell_at h a else if a = length h then Some c else None)"
  by (simp add: cell_at_def nth_append)

lemma cell_at_extend: "cell_at h a = Some c \<Longrightarrow> cell_at (h @ h2) a = Some c"
  by (auto simp: cell_at_def nth_append split: if_splits)

lemma cell_at_Some_less: "cell_at h a = Some c \<Longrightarrow> a < length h"
  by (simp add: cell_at_def split: if_splits)

lemma props_extend:
  assumes "props st = Some ps"
  shows "props (st\<lparr>store := store st @ h2\<rparr>) = Some ps"
  using assms
  by (auto simp: props_def cell_at_extend
           split: val.split_asm option.split_asm cell.split_asm)

lemma handleFieldChange_props:
  assumes "props st = Some ps"
  shows "handleFieldChange f v st =
           Inr (st\<lparr>parsedData := VRef (length (store st)),
                   store := store st @ [Obj (AList.update f v ps)]\<rparr>)"
  using assms
  by (auto simp: handleFieldChange_def props_def alloc_def Let_def
           split: val.splits option.splits cell.splits)

lemma read_list:
  assumes "elements st f = Some xs"
  shows "seq (get_opt (store st) (parsedData st) f)
           (\<lambda>v. seq (if truthy v then spread (store st) v else Inr []) k) = k xs"
  using assms
  by (auto simp: elements_def document_def props_def array_at_def lookup_def seq_def
           split: val.splits option.splits cell.splits)

lemma elements_props: "elements st f = Some xs \<Longrightarrow> \<exists>ps. props st = Some ps"
  by (auto simp: elements_def document_def split: option.splits)

lemma publish:
  assumes "props st = Some ps"
  shows "handleFieldChange f (VRef (length (store st) + length fresh))
           (st\<lparr>store := store st @ fresh @ [Arr ys]\<rparr>) = Inr (published st fresh f ys ps)"
proof -
  have "props (st\<lparr>store := store st @ (fresh @ [Arr ys])\<rparr>) = Some ps"
    by (rule props_extend [OF assms])
  from handleFieldChange_props [OF this, of f "VRef (length (store st) + length fresh)"]
  show ?thesis by (simp add: published_def)
qed

lemma published_document:
  "document (published st fresh f ys ps)
     = Some ((map_of ps)(f \<mapsto> VRef (length (store st) + length fresh)))"
  by (simp add: published_def document_def props_def cell_at_def nth_append update_conv')

lemma published_elements: "elements (published st fresh f ys ps) f = Some ys"
  by (simp add: elements_def published_document)
     (simp add: published_def array_at_def cell_at_def nth_append)

lemma published_prefix:
  "take (length (store st)) (store (published st fresh f ys ps)) = store st"
  by (simp add: published_def)

lemma addEducation_run:
  assumes "elements st ''education'' = Some xs" and "props st = Some ps"
  shows "addEducation st =
           Inr (published st
                  [Obj [(''degree'', VStr ''''), (''institution'', VStr ''''),
                        (''start_year'', VStr ''''), (''end_year'', VStr ''''),
                        (''description'', VStr '''')]]
                  ''education'' (xs @ [VRef (length (store st))]) ps)"
  unfolding addEducation_def read_list [OF assms(1)]
  using publish [OF assms(2), where fresh = "[c]" for c]
  by (simp add: alloc_def)

lemma removeEducation_run:
  assumes "elements st ''education'' = Some xs" and "props st = Some ps"
  shows "removeEducation i st = Inr (published st [] ''education'' (splice i xs) ps)"
  unfolding removeEducation_def read_list [OF assms(1)]
  using publish [OF assms(2), where fresh = "[]"]
  by (simp add: alloc_def)

lemma addExperience_run:
  assumes "elements st ''experience'' = Some xs" and "props st = Some ps"
  shows "addExperience st =
           Inr (published st
                  [Arr [VStr ''''],
                   Obj [(''company'', VStr ''''), (''title'', VStr ''''),
                        (''start_year'', VStr ''''), (''end_year'', VStr ''''),
                        (''description'', VRef (length (store st)))]]
                  ''experience'' (xs @ [VRef (length (store st) + 1)]) ps)"
  unfolding addExperience_def read_list [OF assms(1)]
  using publish [OF assms(2), where fresh = "[c1, c2]" for c1 c2]
  by (simp add: alloc_def)

lemma removeExperience_run:
  assumes "elements st ''experience'' = Some xs" and "props st = Some ps"
  shows "removeExperience i st = Inr (published st [] ''experience'' (splice i xs) ps)"
  unfolding removeExperience_def read_list [OF assms(1)]
  using publish [OF assms(2), where fresh = "[]"]
  by (simp add: alloc_def)

lemma addProject_run:
  assumes "elements st ''projects'' = Some xs" and "props st = Some ps"
  shows "addProject st =
           Inr (published st
                  [Arr [VStr ''''],
                   Obj [(''project_name'', VStr ''''),
                        (''start_year'', VStr ''''), (''end_year'', VStr ''''),
                        (''description'', VRef (length (store st)))]]
                  ''projects'' (xs @ [VRef (length (store st) + 1)]) ps)"
  unfolding addProject_def read_list [OF assms(1)]
  using publish [OF assms(2), where fresh = "[c1, c2]" for c1 c2]
  by (simp add: alloc_def)

lemma removeProject_run:
  assumes "elements st ''projects'' = Some xs" and "props st = Some ps"
  shows "removeProject i st = Inr (published st [] ''projects'' (splice i xs) ps)"
  unfolding removeProject_def read_list [OF assms(1)]
  using publish [OF assms(2), where fresh = "[]"]
  by (simp add: alloc_def)

lemma removeAt_run:
  assumes "f \<in> set list_fields" and "elements st f = Some xs" and "props st = Some ps"
  shows "removeAt f i st = Inr (published st [] f (splice i xs) ps)"
  using assms removeEducation_run [of st xs ps i] removeExperience_run [of st xs ps i]
        removeProject_run [of st xs ps i]
  by (auto simp: removeAt_def list_fields_def)

lemma splice_valid:
  assumes "0 \<le> i" and "i < int (length xs)"
  shows "splice i xs = take (nat i) xs @ drop (Suc (nat i)) xs"
proof -
  have "nat (i + 1) = Suc (nat i)" using assms by simp
  moreover have "min i (int (length xs)) = i" and "min 1 (int (length xs) - i) = 1"
    using assms by simp_all
  ultimately show ?thesis using assms by (simp add: splice_def Let_def)
qed

lemma splice_past_end:
  assumes "int (length xs) \<le> i"
  shows "splice i xs = xs"
proof -
  have "\<not> i < 0" using assms by simp
  moreover have "min i (int (length xs)) = int (length xs)" using assms by simp
  ultimately show ?thesis by (simp add: splice_def Let_def)
qed

lemma snapshot_education_entry:
  "snapshot 2 (h @ Obj [(''degree'', VStr ''''), (''institution'', VStr ''''),
                       (''start_year'', VStr ''''), (''end_year'', VStr ''''),
                       (''description'', VStr '''')] # h2) (VRef (length h))
     = default_entry ''education''"
  by (simp add: numeral_2_eq_2 cell_at_def default_entry_def)

lemma snapshot_experience_entry:
  "snapshot 2 (h @ Arr [VStr ''''] #
                   Obj [(''company'', VStr ''''), (''title'', VStr ''''),
                        (''start_year'', VStr ''''), (''end_year'', VStr ''''),
                        (''description'', VRef (length h))] # h2) (VRef (Suc (length h)))
     = default_entry ''experience''"
  by (simp add: numeral_2_eq_2 cell_at_def default_entry_def nth_append)

lemma snapshot_project_entry:
  "snapshot 2 (h @ Arr [VStr ''''] #
                   Obj [(''project_name'', VStr ''''),
                        (''start_year'', VStr ''''), (''end_year'', VStr ''''),
                        (''description'', VRef (length h))] # h2) (VRef (Suc (length h)))
     = default_entry ''projects''"
  by (simp add: numeral_2_eq_2 cell_at_def default_entry_def nth_append)

lemma append_entry_run:
  assumes "f \<in> set list_fields" and "elements st f = Some xs" and "props st = Some ps"
  shows "\<exists>fresh e. append_entry f st = Inr (published st fresh f (xs @ [VRef e]) ps)
           \<and> length (store st) \<le> e
           \<and> snapshot 2 (store (published st fresh f (xs @ [VRef e]) ps)) (VRef e)
               = default_entry f"
proof -
  consider "f = ''education''" | "f = ''experience''" | "f = ''projects''"
    using assms(1) by (auto simp: list_fields_def)
  then show ?thesis
  proof cases
    case 1
    show ?thesis
      unfolding 1 append_entry_def
      apply (simp only: addEducation_run [OF assms(2,3)[unfolded 1]] refl if_True)
      apply (intro exI conjI)
        apply (rule refl)
       apply simp
      apply (simp add: published_def snapshot_education_entry)
      done
  next
    case 2
    show ?thesis
      unfolding 2 append_entry_def
      apply (simp add: addExperience_run [OF assms(2,3)[unfolded 2]])
      apply (intro exI conjI)
        apply (rule refl)
       apply simp
      apply (simp add: published_def snapshot_experience_entry)
      done
  next
    case 3
    show ?thesis
      unfolding 3 append_entry_def
      apply (simp add: addProject_run [OF assms(2,3)[unfolded 3]])
      apply (intro exI conjI)
        apply (rule refl)
       apply simp
      apply (simp add: published_def snapshot_project_entry)
      done
  qed
qed

text \<open>
  Claim C1. For every document (the absent one counting as the empty mapping), field name
  and value, \<^verbatim>\<open>handleFieldChange\<close> installs a new object as the document, in which the
  field is bound to the value and every other field holds the very value it held before
  (the same string, the same reference); from the absent document the result is the
  single-field document. The new object is a fresh cell and the cells of the store before
  the call are as they were.
\<close>

theorem setField_binds:
  assumes "document st = Some D"
  shows "\<exists>st'. handleFieldChange f v st = Inr st'
           \<and> document st' = Some (D(f \<mapsto> v))
           \<and> parsedData st' = VRef (length (store st))
           \<and> take (length (store st)) (store st') = store st
           \<and> (parsedData st = VNull \<longrightarrow> props st' = Some [(f, v)])"
proof -
  from assms obtain ps where ps: "props st = Some ps" and D: "D = map_of ps"
    by (auto simp: document_def)
  let ?st' = "st\<lparr>parsedData := VRef (length (store st)),
                   store := store st @ [Obj (AList.update f v ps)]\<rparr>"
  have run: "handleFieldChange f v st = Inr ?st'"
    by (rule handleFieldChange_props [OF ps])
  have p': "props ?st' = Some (AList.update f v ps)"
    by (simp add: props_def cell_at_append)
  have "document ?st' = Some (D(f \<mapsto> v))"
    by (simp add: document_def p' D update_conv')
  moreover have "parsedData st = VNull \<longrightarrow> props ?st' = Some [(f, v)]"
  proof
    assume "parsedData st = VNull"
    with ps have "ps = []" by (simp add: props_def)
    with p' show "props ?st' = Some [(f, v)]" by simp
  qed
  ultimately show ?thesis using run by simp
qed

lemma document_loaded:
  "document loaded = Some (map_of [(''full_name'', VStr ''Jane Doe''), (''education'', VRef 2),
                                   (''technical_skills'', VRef 3)])"
  by (simp add: document_def props_def loaded_def jane_store_def cell_at_def)

lemma document_selected: "document selected = Some Map.empty"
  by (simp add: document_def props_def selected_def initial_def)

theorem setField_binds_witness:
  "document loaded = Some (map_of [(''full_name'', VStr ''Jane Doe''), (''education'', VRef 2),
                                   (''technical_skills'', VRef 3)])
   \<and> (\<exists>st'. handleFieldChange ''title'' (VStr ''Engineer'') loaded = Inr st'
          \<and> document st' = Some ((map_of [(''full_name'', VStr ''Jane Doe''),
                 (''education'', VRef 2), (''technical_skills'', VRef 3)])
                   (''title'' \<mapsto> VStr ''Engineer''))
          \<and> parsedData st' = VRef 6)
   \<and> document selected = Some Map.empty \<and> parsedData selected = VNull
   \<and> (\<exists>st'. handleFieldChange ''title'' (VStr ''Engineer'') selected = Inr st'
          \<and> props st' = Some [(''title'', VStr ''Engineer'')])"
proof -
  have l: "length (store loaded) = 6" by (simp add: loaded_def jane_store_def)
  have n: "parsedData selected = VNull" by (simp add: selected_def initial_def)
  from setField_binds [OF document_loaded, of "''title''" "VStr ''Engineer''"]
       setField_binds [OF document_selected, of "''title''" "VStr ''Engineer''"]
  show ?thesis
    unfolding l using document_loaded document_selected n by blast
qed

text \<open>
  Claim C3. For each of the three list fields, with entries \<open>xs\<close> (none when the field
  is absent), the add handler leaves the field bound to a list one longer, whose first
  entries are those of \<open>xs\<close> and whose last is a fresh object that reads as the default
  entry: every text subfield the empty string, every list subfield the list of one empty
  string.
\<close>

theorem append_adds_default_entry:
  assumes "f \<in> set list_fields" and "elements st f = Some xs"
  shows "\<exists>st' e. append_entry f st = Inr st'
           \<and> elements st' f = Some (xs @ [VRef e])
           \<and> length (xs @ [VRef e]) = length xs + 1
           \<and> length (store st) \<le> e
           \<and> snapshot 2 (store st') (VRef e) = default_entry f
           \<and> take (length (store st)) (store st') = store st"
proof -
  from elements_props [OF assms(2)] obtain ps where ps: "props st = Some ps" ..
  from append_entry_run [OF assms ps] obtain fresh e where
    run: "append_entry f st = Inr (published st fresh f (xs @ [VRef e]) ps)"
    and fresh: "length (store st) \<le> e"
    and entry: "snapshot 2 (store (published st fresh f (xs @ [VRef e]) ps)) (VRef e)
                  = default_entry f"
    by blast
  show ?thesis
    using run fresh entry published_elements [of st fresh f "xs @ [VRef e]" ps]
          published_prefix [of st fresh f "xs @ [VRef e]" ps]
    by (intro exI [of _ "published st fresh f (xs @ [VRef e]) ps"] exI [of _ e]) simp
qed

text \<open>
  Claim C4. For each of the three list fields, with entries \<open>xs\<close>, and an index
  \<open>0 \<le> i < length xs\<close>, the remove handler leaves the field bound to a list one
  shorter: the entries before \<open>i\<close> stay where they were and every later one moves down
  by one place.
\<close>

theorem removeAt_valid_index:
  assumes "f \<in> set list_fields" and "elements st f = Some xs"
    and "0 \<le> i" and "i < int (length xs)"
  shows "\<exists>st' ys. removeAt f i st = Inr st'
           \<and> elements st' f = Some ys
           \<and> ys = take (nat i) xs @ drop (Suc (nat i)) xs
           \<and> length ys = length xs - 1
           \<and> (\<forall>j. j < nat i \<longrightarrow> ys ! j = xs ! j)
           \<and> (\<forall>j. nat i \<le> j \<and> j < length ys \<longrightarrow> ys ! j = xs ! Suc j)
           \<and> take (length (store st)) (store st') = store st"
proof -
  from elements_props [OF assms(2)] obtain ps where ps: "props st = Some ps" ..
  let ?ys = "take (nat i) xs @ drop (Suc (nat i)) xs"
  have run: "removeAt f i st = Inr (published st [] f ?ys ps)"
    using removeAt_run [OF assms(1,2) ps, of i] splice_valid [OF assms(3,4)] by simp
  have i: "nat i < length xs" using assms(3,4) by simp
  have len: "length ?ys = length xs - 1" using i by simp
  have before: "\<forall>j. j < nat i \<longrightarrow> ?ys ! j = xs ! j"
    using i by (simp add: nth_append)
  have after: "\<forall>j. nat i \<le> j \<and> j < length ?ys \<longrightarrow> ?ys ! j = xs ! Suc j"
    using i by (auto simp: nth_append min_def)
  show ?thesis
    using run len before after published_elements [of st "[]" f ?ys ps]
          published_prefix [of st "[]" f ?ys ps]
    by (intro exI [of _ "published st [] f ?ys ps"] exI [of _ ?ys]) simp
qed

text \<open>
  Claim C10. With an index at or past the end the remove handler removes nothing: the
  field is bound to a new array with the same entries in the same order, and an absent
  field becomes bound to an empty array.
\<close>

theorem removeAt_past_end:
  assumes "f \<in> set list_fields" and "elements st f = Some xs" and "int (length xs) \<le> i"
  shows "\<exists>st' D a. removeAt f i st = Inr st'
           \<and> elements st' f = Some xs
           \<and> document st' = Some D \<and> D f = Some (VRef a)
           \<and> array_at (store st') (VRef a) = Some xs
           \<and> take (length (store st)) (store st') = store st"
proof -
  from elements_props [OF assms(2)] obtain ps where ps: "props st = Some ps" ..
  let ?st' = "published st [] f xs ps"
  have run: "removeAt f i st = Inr ?st'"
    using removeAt_run [OF assms(1,2) ps, of i] splice_past_end [OF assms(3)] by simp
  have arr: "array_at (store ?st') (VRef (length (store st))) = Some xs"
    by (simp add: published_def array_at_def cell_at_def nth_append)
  show ?thesis
    using run arr published_elements [of st "[]" f xs ps]
          published_prefix [of st "[]" f xs ps] published_document [of st "[]" f xs ps]
    by (intro exI [of _ ?st'] exI [of _ "(map_of ps)(f \<mapsto> VRef (length (store st)))"]
              exI [of _ "length (store st)"]) simp
qed

lemma elements_loaded_education: "elements loaded ''education'' = Some [VRef 0, VRef 1]"
  by (simp add: elements_def document_loaded)
     (simp add: array_at_def cell_at_def loaded_def jane_store_def)

lemma elements_loaded_experience: "elements loaded ''experience'' = Some []"
  by (simp add: elements_def document_loaded)

lemma education_listed: "''education'' \<in> set list_fields"
  by (simp add: list_fields_def)

lemma experience_listed: "''experience'' \<in> set list_fields"
  by (simp add: list_fields_def)

theorem append_adds_default_entry_witness:
  "''education'' \<in> set list_fields \<and> elements loaded ''education'' = Some [VRef 0, VRef 1]
   \<and> (\<exists>st' e. append_entry ''education'' loaded = Inr st'
          \<and> elements st' ''education'' = Some [VRef 0, VRef 1, VRef e]
          \<and> snapshot 2 (store st') (VRef e) = default_entry ''education'')
   \<and> ''experience'' \<in> set list_fields \<and> elements loaded ''experience'' = Some []
   \<and> (\<exists>st' e. append_entry ''experience'' loaded = Inr st'
          \<and> elements st' ''experience'' = Some [VRef e]
          \<and> snapshot 2 (store st') (VRef e) = default_entry ''experience'')"
  using append_adds_default_entry [OF education_listed elements_loaded_education]
        append_adds_default_entry [OF experience_listed elements_loaded_experience]
        education_listed experience_listed elements_loaded_education elements_loaded_experience
  by simp blast

theorem removeAt_valid_index_witness:
  "''education'' \<in> set list_fields \<and> elements loaded ''education'' = Some [VRef 0, VRef 1]
   \<and> (0::int) \<le> 0 \<and> (0::int) < int (length [VRef 0, VRef 1])
   \<and> (\<exists>st'. removeAt ''education'' 0 loaded = Inr st'
          \<and> elements st' ''education'' = Some [VRef 1])
   \<and> (0::int) \<le> 1 \<and> (1::int) < int (length [VRef 0, VRef 1])
   \<and> (\<exists>st'. removeAt ''education'' 1 loaded = Inr st'
          \<and> elements st' ''education'' = Some [VRef 0])"
proof -
  have i: "(0::int) \<le> 0" "(0::int) < int (length [VRef 0, VRef 1])" by simp_all
  have j: "(0::int) \<le> 1" "(1::int) < int (length [VRef 0, VRef 1])" by simp_all
  from removeAt_valid_index [OF education_listed elements_loaded_education i]
  have a: "\<exists>st'. removeAt ''education'' 0 loaded = Inr st'
          \<and> elements st' ''education'' = Some [VRef 1]" by auto
  from removeAt_valid_index [OF education_listed elements_loaded_education j]
  have b: "\<exists>st'. removeAt ''education'' 1 loaded = Inr st'
          \<and> elements st' ''education'' = Some [VRef 0]" by auto
  show ?thesis using a b education_listed elements_loaded_education by simp
qed

theorem removeAt_past_end_witness:
  "''education'' \<in> set list_fields \<and> elements loaded ''education'' = Some [VRef 0, VRef 1]
   \<and> int (length [VRef 0, VRef 1]) \<le> 2
   \<and> (\<exists>st'. removeAt ''education'' 2 loaded = Inr st'
          \<and> elements st' ''education'' = Some [VRef 0, VRef 1])
   \<and> ''experience'' \<in> set list_fields \<and> elements loaded ''experience'' = Some []
   \<and> int (length ([]::val list)) \<le> 0
   \<and> (\<exists>st' a. removeAt ''experience'' 0 loaded = Inr st'
          \<and> array_at (store st') (VRef a) = Some [])"
proof -
  have i: "int (length [VRef 0, VRef 1]) \<le> 2" "int (length ([]::val list)) \<le> 0" by simp_all
  from removeAt_past_end [OF education_listed elements_loaded_education i(1)]
       removeAt_past_end [OF experience_listed elements_loaded_experience i(2)]
  show ?thesis
    using education_listed experience_listed elements_loaded_education
          elements_loaded_experience
    by simp blast
qed

section \<open>Splitting and joining\<close>

lemma split_on_not_Nil: "split_on c s \<noteq> []"
  by (induction s) (auto split: list.splits)

lemma join_push: "join sep ((x # p) # ps) = x # join sep (p # ps)"
  by (cases ps) auto

lemma join_split_on: "join [c] (split_on c s) = s"
proof (induction s)
  case Nil
  show ?case by simp
next
  case (Cons x xs)
  obtain p ps where sp: "split_on c xs = p # ps"
    using split_on_not_Nil [of c xs] by (cases "split_on c xs") auto
  show ?case using Cons sp by (simp add: join_push)
qed

lemma split_on_pieces: "p \<in> set (split_on c s) \<Longrightarrow> c \<notin> set p"
proof (induction s arbitrary: p)
  case Nil
  then show ?case by simp
next
  case (Cons x xs)
  obtain q qs where sp: "split_on c xs = q # qs"
    using split_on_not_Nil [of c xs] by (cases "split_on c xs") auto
  show ?case
  proof (cases "x = c")
    case True
    with Cons show ?thesis by auto
  next
    case False
    with Cons.prems sp have "p = x # q \<or> p \<in> set qs" by simp
    then show ?thesis using Cons.IH [of q] Cons.IH [of p] sp False by auto
  qed
qed

lemma length_split_on: "length (split_on c s) = Suc (length (filter (\<lambda>x. x = c) s))"
proof (induction s)
  case Nil
  show ?case by simp
next
  case (Cons x xs)
  obtain q qs where sp: "split_on c xs = q # qs"
    using split_on_not_Nil [of c xs] by (cases "split_on c xs") auto
  show ?case using Cons sp by auto
qed

lemma texts_of_strings: "texts_of (map VStr ss) = Inr ss"
  by (induction ss) (simp_all add: seq_def)

lemma bulk_onChange_run:
  assumes "props st = Some ps"
  shows "bulk_onChange f text st
           = Inr (published st [] f (map VStr (split_on CHR '','' text)) ps)"
  unfolding bulk_onChange_def
  using publish [OF assms, where fresh = "[]"]
  by (simp add: alloc_def)

lemma bulk_value_strings:
  assumes "parsedData st \<noteq> VNull" and "elements st f = Some (map VStr ss)"
  shows "bulk_value f st = Inr (join '', '' ss)"
  using assms
  by (auto simp: bulk_value_def elements_def document_def props_def array_at_def lookup_def
                 seq_def texts_of_strings
           split: val.splits option.splits cell.splits)

lemma published_loaded: "parsedData (published st fresh f ys ps) \<noteq> VNull"
  by (simp add: published_def)

lemma lossy_when_comma:
  assumes "s \<in> set ss" and "c \<in> set s"
  shows "split_on c t \<noteq> ss"
  using split_on_pieces [of s c t] assms by auto

text \<open>
  Claim C9. A bulk textarea shows its list joined with a comma and a space, and an edit
  binds the field to the pieces of the entered text between its commas: joining the pieces
  with commas gives the text back, so nothing is trimmed or dropped, and there is one piece
  more than there are commas. The text \<^verbatim>\<open>Go, Rust,C++\<close> gives the three pieces
  \<^verbatim>\<open>Go\<close>, \<^verbatim>\<open> Rust\<close>, \<^verbatim>\<open>C++\<close>. A list with an element that contains a comma
  does not come back from what the textarea shows for it.
\<close>

theorem bulk_text_split_join:
  assumes "props st = Some ps"
  shows "(\<exists>st'. bulk_onChange f text st = Inr st'
           \<and> elements st' f = Some (map VStr (split_on CHR '','' text))
           \<and> bulk_value f st' = Inr (join '', '' (split_on CHR '','' text)))
    \<and> join '','' (split_on CHR '','' text) = text
    \<and> length (split_on CHR '','' text) = Suc (length (filter (\<lambda>x. x = CHR '','') text))
    \<and> split_on CHR '','' ''Go, Rust,C++'' = [''Go'', '' Rust'', ''C++'']
    \<and> (\<forall>ss. parsedData st \<noteq> VNull \<and> elements st f = Some (map VStr ss)
              \<and> (\<exists>s \<in> set ss. CHR '','' \<in> set s)
           \<longrightarrow> (\<exists>st'. bulk_value f st = Inr (join '', '' ss)
                  \<and> bulk_onChange f (join '', '' ss) st = Inr st'
                  \<and> elements st' f = Some (map VStr (split_on CHR '','' (join '', '' ss)))
                  \<and> split_on CHR '','' (join '', '' ss) \<noteq> ss))"
proof -
  have el: "elements (published st [] f (map VStr (split_on CHR '','' t)) ps) f
              = Some (map VStr (split_on CHR '','' t))" for t
    by (rule published_elements)
  have run: "bulk_onChange f t st
               = Inr (published st [] f (map VStr (split_on CHR '','' t)) ps)" for t
    by (rule bulk_onChange_run [OF assms])
  have edit: "\<exists>st'. bulk_onChange f text st = Inr st'
           \<and> elements st' f = Some (map VStr (split_on CHR '','' text))
           \<and> bulk_value f st' = Inr (join '', '' (split_on CHR '','' text))"
    using run el bulk_value_strings [OF published_loaded el] by simp
  have example: "split_on CHR '','' ''Go, Rust,C++'' = [''Go'', '' Rust'', ''C++'']"
    by simp
  have lossy: "\<exists>st'. bulk_value f st = Inr (join '', '' ss)
                  \<and> bulk_onChange f (join '', '' ss) st = Inr st'
                  \<and> elements st' f = Some (map VStr (split_on CHR '','' (join '', '' ss)))
                  \<and> split_on CHR '','' (join '', '' ss) \<noteq> ss"
    if h: "parsedData st \<noteq> VNull \<and> elements st f = Some (map VStr ss)
                 \<and> (\<exists>s \<in> set ss. CHR '','' \<in> set s)" for ss
  proof -
    from h obtain s where s: "s \<in> set ss" "CHR '','' \<in> set s" by blast
    show ?thesis
      using bulk_value_strings [of st f ss] h run el lossy_when_comma [OF s] by simp
  qed
  show ?thesis
    using edit example lossy join_split_on [of "CHR '',''" "text"]
          length_split_on [of "CHR '',''" "text"]
    by blast
qed

lemma props_loaded:
  "props loaded = Some [(''full_name'', VStr ''Jane Doe''), (''education'', VRef 2),
                        (''technical_skills'', VRef 3)]"
  by (simp add: props_def loaded_def jane_store_def cell_at_def)

lemma elements_loaded_skills:
  "elements loaded ''technical_skills'' = Some (map VStr [''Go'', ''Rust, Cargo''])"
  by (simp add: elements_def document_loaded)
     (simp add: array_at_def cell_at_def loaded_def jane_store_def)

theorem bulk_text_split_join_witness:
  "props loaded = Some [(''full_name'', VStr ''Jane Doe''), (''education'', VRef 2),
                        (''technical_skills'', VRef 3)]
   \<and> (\<exists>st'. bulk_onChange ''technical_skills'' ''Go, Rust,C++'' loaded = Inr st'
          \<and> elements st' ''technical_skills'' = Some [VStr ''Go'', VStr '' Rust'', VStr ''C++''])
   \<and> parsedData loaded \<noteq> VNull
   \<and> elements loaded ''technical_skills'' = Some (map VStr [''Go'', ''Rust, Cargo''])
   \<and> (\<exists>s \<in> set [''Go'', ''Rust, Cargo'']. CHR '','' \<in> set s)
   \<and> bulk_value ''technical_skills'' loaded = Inr ''Go, Rust, Cargo''
   \<and> (\<exists>st'. bulk_onChange ''technical_skills'' ''Go, Rust, Cargo'' loaded = Inr st'
          \<and> elements st' ''technical_skills''
               = Some [VStr ''Go'', VStr '' Rust'', VStr '' Cargo''])"
proof -
  note t = bulk_text_split_join [OF props_loaded, of "''technical_skills''" "''Go, Rust,C++''"]
  have loaded: "parsedData loaded \<noteq> VNull" by (simp add: loaded_def)
  have comma: "\<exists>s \<in> set [''Go'', ''Rust, Cargo'']. CHR '','' \<in> set s" by simp
  from t have edit: "\<exists>st'. bulk_onChange ''technical_skills'' ''Go, Rust,C++'' loaded = Inr st'
          \<and> elements st' ''technical_skills'' = Some [VStr ''Go'', VStr '' Rust'', VStr ''C++'']"
    by simp blast
  from t have "\<forall>ss. parsedData loaded \<noteq> VNull
                \<and> elements loaded ''technical_skills'' = Some (map VStr ss)
                \<and> (\<exists>s \<in> set ss. CHR '','' \<in> set s)
           \<longrightarrow> (\<exists>st'. bulk_value ''technical_skills'' loaded = Inr (join '', '' ss)
                  \<and> bulk_onChange ''technical_skills'' (join '', '' ss) loaded = Inr st'
                  \<and> elements st' ''technical_skills''
                       = Some (map VStr (split_on CHR '','' (join '', '' ss)))
                  \<and> split_on CHR '','' (join '', '' ss) \<noteq> ss)"
    by blast
  from this [rule_format, of "[''Go'', ''Rust, Cargo'']"] loaded elements_loaded_skills comma
  have "\<exists>st'. bulk_value ''technical_skills'' loaded = Inr ''Go, Rust, Cargo''
          \<and> bulk_onChange ''technical_skills'' ''Go, Rust, Cargo'' loaded = Inr st'
          \<and> elements st' ''technical_skills''
               = Some [VStr ''Go'', VStr '' Rust'', VStr '' Cargo'']"
    by simp
  then show ?thesis
    using props_loaded edit loaded elements_loaded_skills comma by blast
qed

section \<open>Upload and save\<close>

lemma alloc_extends:
  "\<exists>h2. snd (alloc_json j h) = h @ h2"
  "\<exists>h2. snd (alloc_elems js h) = h @ h2"
  "\<exists>h2. snd (alloc_members ms h) = h @ h2"
  by (induction j h and js h and ms h rule: alloc_json_alloc_elems_alloc_members.induct)
     (fastforce simp: alloc_def split: prod.splits)+

lemma alloc_json_shallow: "shallow j (fst (alloc_json j h))"
  by (cases j) (auto simp: alloc_def split: prod.splits)

lemma alloc_members_lookup:
  "rel_option shallow (map_of (rev ms) k) (map_of (fst (alloc_members ms h)) k)"
proof (induction ms arbitrary: h)
  case Nil
  show ?case by simp
next
  case (Cons m ms)
  obtain k' j where m: "m = (k', j)" by (cases m)
  obtain v h1 where a: "alloc_json j h = (v, h1)" by (cases "alloc_json j h")
  obtain ps h2 where b: "alloc_members ms h1 = (ps, h2)" by (cases "alloc_members ms h1")
  have v: "shallow j v" using alloc_json_shallow [of j h] a by simp
  have ih: "rel_option shallow (map_of (rev ms) k) (map_of ps k)"
    using Cons [of h1] b by simp
  show ?case
    using ih v
    by (auto simp: m a b map_add_def delete_conv' split: option.splits
             elim: option.rel_cases)
qed

lemma get_prop_data:
  "get_prop (snd (alloc_json j h)) (fst (alloc_json j h)) k =
     (case j of
        JNull \<Rightarrow> Inl (Throws cannot_read)
      | JStr s \<Rightarrow> Inr VUndef
      | JArr js \<Rightarrow> Inr VUndef
      | JObj ms \<Rightarrow> Inr (lookup (fst (alloc_members ms h)) k))"
  by (cases j) (auto simp: alloc_def cell_at_def split: prod.splits)

lemma lookup_no_member:
  assumes "member (JObj ms) k = None"
  shows "lookup (fst (alloc_members ms h)) k = VUndef"
  using alloc_members_lookup [of ms k h] assms
  by (auto simp: lookup_def elim: option.rel_cases)

lemma get_prop_no_member:
  assumes "member j k = None"
  shows "get_prop (snd (alloc_json j h)) (fst (alloc_json j h)) k = Inl (Throws cannot_read)
       \<or> get_prop (snd (alloc_json j h)) (fst (alloc_json j h)) k = Inr VUndef"
  unfolding get_prop_data
  using assms lookup_no_member [of _ k h]
  by (cases j) simp_all

lemma upload_try_failure:
  assumes "upload_failure r"
  shows "(\<exists>err. upload_try r st = Inl (Throws err) \<and> (platform_worded r \<longrightarrow> worded err))
       \<or> (\<exists>h2. upload_try r st =
              Inr (st\<lparr>error := Some ''Parsing failed. Please try another resume.'',
                      store := store st @ h2\<rparr>))"
proof (cases r)
  case (Rejected err)
  with assms show ?thesis by (simp add: upload_try_def)
next
  case (Response ok statusText b)
  show ?thesis
  proof (cases ok)
    case False
    with Response show ?thesis by (simp add: upload_try_def)
  next
    case True
    show ?thesis
    proof (cases b)
      case (BodyThrows err)
      with assms Response True show ?thesis by (simp add: upload_try_def)
    next
      case (Body j)
      obtain data h where a: "alloc_json j (store st) = (data, h)"
        by (cases "alloc_json j (store st)")
      from alloc_extends(1) [of j "store st"] a obtain h2 where h: "h = store st @ h2"
        by auto
      have "member j ''parsed'' = None"
        using assms(1) Response True Body by (simp add: upload_failure_def)
      from get_prop_no_member [OF this, of "store st"] a
      have "get_prop h data ''parsed'' = Inl (Throws cannot_read)
          \<or> get_prop h data ''parsed'' = Inr VUndef" by simp
      then show ?thesis
        using Response True Body a h
        by (auto simp: upload_try_def seq_def cannot_read_def)
    qed
  qed
qed

lemma handleUpload_failure:
  assumes "file_cell st \<noteq> None" and "upload_failure r"
  shows "\<exists>st' m h2. handleUpload r st = Inr st'
           \<and> parsedData st' = parsedData st \<and> store st' = store st @ h2
           \<and> error st' = Some m \<and> (platform_worded r \<longrightarrow> m \<noteq> []) \<and> loading st' = False
           \<and> pdfUrl st' = pdfUrl st"
proof -
  let ?st1 = "st\<lparr>loading := True, error := None\<rparr>"
  from upload_try_failure [OF assms(2), of ?st1]
  consider err where "upload_try r ?st1 = Inl (Throws err)" "platform_worded r \<longrightarrow> worded err"
    | h2 where "upload_try r ?st1 =
              Inr (?st1\<lparr>error := Some ''Parsing failed. Please try another resume.'',
                      store := store ?st1 @ h2\<rparr>)"
    by blast
  then show ?thesis
  proof cases
    case 1
    then show ?thesis using assms(1)
      by (cases err) (auto simp: handleUpload_def Let_def intro: exI [of _ "[]"])
  next
    case 2
    then show ?thesis using assms(1)
      by (auto simp: handleUpload_def Let_def)
  qed
qed

lemma upload_try_never_unmodelled: "upload_try r st \<noteq> Inl Unmodelled"
proof (cases r)
  case (Rejected err)
  then show ?thesis by (simp add: upload_try_def)
next
  case (Response ok statusText b)
  show ?thesis
  proof (cases b)
    case (BodyThrows err)
    with Response show ?thesis by (simp add: upload_try_def)
  next
    case (Body j)
    obtain data h where a: "alloc_json j (store st) = (data, h)"
      by (cases "alloc_json j (store st)")
    have g: "get_prop h data k =
               (case j of JNull \<Rightarrow> Inl (Throws cannot_read) | JStr s \<Rightarrow> Inr VUndef
                | JArr js \<Rightarrow> Inr VUndef
                | JObj ms \<Rightarrow> Inr (lookup (fst (alloc_members ms (store st))) k))" for k
      using get_prop_data [of j "store st" k] a by simp
    show ?thesis
      using Response Body a
      by (cases j) (simp_all add: upload_try_def seq_def g)
  qed
qed

lemma handleUpload_returns: "\<exists>st'. handleUpload r st = Inr st'"
  using upload_try_never_unmodelled [of r "st\<lparr>loading := True, error := None\<rparr>"]
  by (auto simp: handleUpload_def Let_def split: sum.splits stop.splits thrown.splits)

lemma closed_cell:
  assumes "closed h" and "cell_at h a = Some c" and "x \<in> set (cell_vals c)"
  shows "allocated h x"
proof -
  from assms(2) have "c \<in> set h" by (auto simp: cell_at_def split: if_splits)
  with assms(1,3) show ?thesis by (auto simp: closed_def list_all_iff)
qed

lemma reaches_in_store:
  assumes "closed h"
  shows "allocated h v \<Longrightarrow> reaches n h b v \<Longrightarrow> b < length h"
proof (induction n arbitrary: v)
  case 0
  then show ?case by (cases v) simp_all
next
  case (Suc n)
  show ?case
  proof (cases v)
    case (VRef a)
    show ?thesis
    proof (cases "a = b")
      case True
      with Suc.prems(1) VRef show ?thesis by simp
    next
      case False
      with Suc.prems(2) VRef obtain c x where c: "cell_at h a = Some c"
        and x: "x \<in> set (cell_vals c)" "reaches n h b x"
        by (auto simp: list_ex_iff split: option.splits)
      from closed_cell [OF assms c x(1)] x(2) show ?thesis by (rule Suc.IH)
    qed
  qed (use Suc.prems in simp_all)
qed

lemma snapshot_frame:
  "(\<And>b. reaches n h b v \<Longrightarrow> cell_at h' b = cell_at h b)
     \<Longrightarrow> snapshot n h' v = snapshot n h v"
proof (induction n arbitrary: v)
  case 0
  show ?case by (cases v) simp_all
next
  case (Suc n)
  show ?case
  proof (cases v)
    case (VRef a)
    have same: "cell_at h' a = cell_at h a"
      by (rule Suc.prems) (simp add: VRef)
    have step: "snapshot n h' x = snapshot n h x"
      if "cell_at h a = Some c" and "x \<in> set (cell_vals c)" for c x
    proof (rule Suc.IH)
      fix b assume "reaches n h b x"
      with that have "reaches (Suc n) h b v" by (auto simp: VRef list_ex_iff)
      then show "cell_at h' b = cell_at h b" by (rule Suc.prems)
    qed
    show ?thesis
    proof (cases "cell_at h a")
      case None
      with same VRef show ?thesis by simp
    next
      case (Some c)
      show ?thesis
      proof (cases c)
        case (Obj ps)
        with Some same VRef step [OF Some] show ?thesis by simp
      next
        case (Arr vs)
        with Some same VRef step [OF Some] show ?thesis by simp
      qed
    qed
  qed simp_all
qed

lemma snapshot_extend:
  assumes "closed h" and "allocated h v"
  shows "snapshot n (h @ h2) v = snapshot n h v"
proof (rule snapshot_frame)
  fix b assume "reaches n h b v"
  from reaches_in_store [OF assms this] show "cell_at (h @ h2) b = cell_at h b"
    by (simp add: cell_at_def nth_append)
qed

lemma save_try_result:
  assumes "save_try r now st = Inr st'"
  shows "parsedData st' = parsedData st \<and> (\<exists>h2. store st' = store st @ h2)
       \<and> error st' = error st \<and> console st' = console st
       \<and> file_cell st' = file_cell st \<and> loading st' = loading st"
proof (cases r)
  case (Rejected err)
  with assms show ?thesis by (simp add: save_try_def split: if_splits)
next
  case (Response ok statusText b)
  show ?thesis
  proof (cases b)
    case (BodyThrows err)
    with assms Response show ?thesis by (simp add: save_try_def split: if_splits)
  next
    case (Body j)
    obtain data h where a: "alloc_json j (store st) = (data, h)"
      by (cases "alloc_json j (store st)")
    from alloc_extends(1) [of j "store st"] a obtain h2 where h: "h = store st @ h2"
      by auto
    show ?thesis
      using assms Response Body a h
      by (auto simp: save_try_def seq_def split: if_splits sum.splits)
  qed
qed

lemma save_result:
  assumes "save r now st = Inr st'"
  shows "parsedData st' = parsedData st \<and> (\<exists>h2. store st' = store st @ h2)
       \<and> error st' = error st
       \<and> (console st' = console st
            \<or> (\<exists>err. console st' = console st @ [(''Update failed'', err)]))"
proof (cases "truthy (parsedData st)")
  case False
  with assms show ?thesis by (simp add: save_def)
next
  case True
  show ?thesis
  proof (cases "save_try r now st")
    case (Inr st1)
    with assms True have "st' = st1" by (simp add: save_def)
    with save_try_result [OF Inr] show ?thesis by simp
  next
    case (Inl e)
    with assms True show ?thesis
      by (cases e) (auto simp: save_def)
  qed
qed

lemma save_never_throws: "save r now st \<noteq> Inl (Throws e)"
  by (auto simp: save_def split: sum.splits stop.splits)

lemma handleUpload_never_throws: "handleUpload r st \<noteq> Inl (Throws e)"
  using handleUpload_returns [of r st] by auto

lemma lookup_text:
  assumes "case member (JObj ms) k of
             Some (JArr js) \<Rightarrow> False | Some (JObj ns) \<Rightarrow> False | _ \<Rightarrow> True"
  shows "lookup (fst (alloc_members ms h)) k \<noteq> VRef a"
proof -
  have "rel_option shallow (map_of (rev ms) k) (map_of (fst (alloc_members ms h)) k)"
    by (rule alloc_members_lookup)
  then show ?thesis
    using assms
    by (auto simp: lookup_def elim!: option.rel_cases split: option.splits json.splits)
qed

lemma save_try_modelled:
  assumes "pdf_url_text r"
  shows "save_try r now st \<noteq> Inl Unmodelled"
proof (cases r)
  case (Rejected err)
  then show ?thesis by (simp add: save_try_def)
next
  case (Response ok statusText b)
  show ?thesis
  proof (cases b)
    case (BodyThrows err)
    with Response show ?thesis by (simp add: save_try_def)
  next
    case (Body j)
    obtain data h where a: "alloc_json j (store st) = (data, h)"
      by (cases "alloc_json j (store st)")
    have g: "get_prop h data k =
               (case j of JNull \<Rightarrow> Inl (Throws cannot_read) | JStr s \<Rightarrow> Inr VUndef
                | JArr js \<Rightarrow> Inr VUndef
                | JObj ms \<Rightarrow> Inr (lookup (fst (alloc_members ms (store st))) k))" for k
      using get_prop_data [of j "store st" k] a by simp
    show ?thesis
    proof (cases j)
      case (JObj ms)
      have "\<forall>x. lookup (fst (alloc_members ms (store st))) ''pdf_url'' \<noteq> VRef x"
        using assms Response Body JObj by (intro allI lookup_text) simp
      then show ?thesis
        using Response Body a JObj
        by (cases "lookup (fst (alloc_members ms (store st))) ''pdf_url''")
           (auto simp: save_try_def seq_def g)
    qed (use Response Body a in \<open>simp_all add: save_try_def seq_def g\<close>)
  qed
qed

lemma save_returns:
  assumes "pdf_url_text r"
  shows "\<exists>st'. save r now st = Inr st'"
  using save_try_modelled [OF assms, of now st]
  by (auto simp: save_def split: sum.splits stop.splits)

lemma props_kept:
  assumes "parsedData st' = parsedData st" and "store st' = store st @ h2"
    and "props st = Some ps"
  shows "props st' = Some ps"
proof -
  have "props st' = props (st\<lparr>store := store st @ h2\<rparr>)"
    by (simp add: props_def assms(1,2) cong: val.case_cong)
  then show ?thesis using props_extend [OF assms(3), of h2] by simp
qed

lemma document_kept:
  assumes "parsedData st' = parsedData st" and "store st' = store st @ h2"
    and "document st = Some D"
  shows "document st' = Some D"
  using assms props_kept [OF assms(1,2)] by (auto simp: document_def)

lemma snapshot_kept:
  assumes "parsedData st' = parsedData st" and "store st' = store st @ h2"
    and "closed (store st)" and "allocated (store st) (parsedData st)"
  shows "snapshot n (store st') (parsedData st') = snapshot n (store st) (parsedData st)"
  using snapshot_extend [OF assms(3,4)] assms(1,2) by simp

text \<open>
  Claim C6. An upload that fails in one of the three ways (with a file selected, and the
  platform's rejection, if any, carrying some wording) returns with the document cell
  holding what it held (nothing, if nothing was loaded), with every cell of the store as
  it was, so that the document reads the same at every depth, and with a non-empty error
  message.
\<close>

theorem upload_failure_keeps_document:
  assumes "file_cell st \<noteq> None" and "upload_failure r" and "platform_worded r"
  shows "\<exists>st' m. handleUpload r st = Inr st'
           \<and> parsedData st' = parsedData st
           \<and> take (length (store st)) (store st') = store st
           \<and> (\<forall>D. document st = Some D \<longrightarrow> document st' = Some D)
           \<and> (closed (store st) \<and> allocated (store st) (parsedData st) \<longrightarrow>
                (\<forall>n. snapshot n (store st') (parsedData st)
                       = snapshot n (store st) (parsedData st)))
           \<and> error st' = Some m \<and> m \<noteq> []"
proof -
  from handleUpload_failure [OF assms(1,2)] assms(3) obtain st' m h2 where
    run: "handleUpload r st = Inr st'" and p: "parsedData st' = parsedData st"
    and s: "store st' = store st @ h2" and e: "error st' = Some m" "m \<noteq> []"
    by blast
  show ?thesis
    using run p s e document_kept [OF p s] snapshot_kept [OF p s]
    by (intro exI [of _ st'] exI [of _ m]) (simp add: p)
qed

text \<open>
  Claim C8. A save leaves the document cell, and every cell of the store, as they were,
  whatever the response: the handler writes the preview reference or the console, never
  the document. It returns for every response whose \<^verbatim>\<open>pdf_url\<close>, if any, is text.
\<close>

theorem save_keeps_document:
  "(pdf_url_text r \<longrightarrow> (\<exists>st'. save r now st = Inr st'))
   \<and> (\<forall>st'. save r now st = Inr st' \<longrightarrow>
          parsedData st' = parsedData st
        \<and> take (length (store st)) (store st') = store st
        \<and> (\<forall>D. document st = Some D \<longrightarrow> document st' = Some D)
        \<and> (closed (store st) \<and> allocated (store st) (parsedData st) \<longrightarrow>
             (\<forall>n. snapshot n (store st') (parsedData st)
                    = snapshot n (store st) (parsedData st))))"
proof (intro conjI impI allI)
  assume "pdf_url_text r"
  then show "\<exists>st'. save r now st = Inr st'" by (rule save_returns)
next
  fix st' assume run: "save r now st = Inr st'"
  from save_result [OF run] obtain h2 where
    p: "parsedData st' = parsedData st" and s: "store st' = store st @ h2" by blast
  show "parsedData st' = parsedData st" by (rule p)
  show "take (length (store st)) (store st') = store st" by (simp add: s)
  { fix D assume "document st = Some D"
    then show "document st' = Some D" by (rule document_kept [OF p s]) }
  { fix n assume "closed (store st) \<and> allocated (store st) (parsedData st)"
    then show "snapshot n (store st') (parsedData st) = snapshot n (store st) (parsedData st)"
      using snapshot_kept [OF p s, of n] p by simp }
qed

lemma get_prop_absent:
  assumes "member j k = None" and "j \<noteq> JNull"
  shows "get_prop (snd (alloc_json j h)) (fst (alloc_json j h)) k = Inr VUndef"
  unfolding get_prop_data
  using assms lookup_no_member [of _ k h]
  by (cases j) simp_all

lemma handleUpload_thrown:
  assumes "file_cell st \<noteq> None"
  shows "handleUpload (Rejected (ErrorObj m)) st
           = Inr (st\<lparr>loading := False, error := Some m\<rparr>)"
    and "handleUpload (Rejected OtherValue) st
           = Inr (st\<lparr>loading := False, error := Some ''An unknown error occurred.''\<rparr>)"
    and "handleUpload (Response False t b) st
           = Inr (st\<lparr>loading := False, error := Some (''Upload failed: '' @ t)\<rparr>)"
    and "handleUpload (Response True t (BodyThrows (ErrorObj m))) st
           = Inr (st\<lparr>loading := False, error := Some m\<rparr>)"
    and "handleUpload (Response True t (BodyThrows OtherValue)) st
           = Inr (st\<lparr>loading := False, error := Some ''An unknown error occurred.''\<rparr>)"
    and "handleUpload (Response True t (Body JNull)) st
           = Inr (st\<lparr>loading := False,
                     error := Some ''Cannot read properties of null or undefined''\<rparr>)"
proof -
  have n: "(file_cell st = None) = False" using assms by simp
  show "handleUpload (Rejected (ErrorObj m)) st
           = Inr (st\<lparr>loading := False, error := Some m\<rparr>)"
    and "handleUpload (Rejected OtherValue) st
           = Inr (st\<lparr>loading := False, error := Some ''An unknown error occurred.''\<rparr>)"
    and "handleUpload (Response False t b) st
           = Inr (st\<lparr>loading := False, error := Some (''Upload failed: '' @ t)\<rparr>)"
    and "handleUpload (Response True t (BodyThrows (ErrorObj m))) st
           = Inr (st\<lparr>loading := False, error := Some m\<rparr>)"
    and "handleUpload (Response True t (BodyThrows OtherValue)) st
           = Inr (st\<lparr>loading := False, error := Some ''An unknown error occurred.''\<rparr>)"
    and "handleUpload (Response True t (Body JNull)) st
           = Inr (st\<lparr>loading := False,
                     error := Some ''Cannot read properties of null or undefined''\<rparr>)"
    by (simp_all add: handleUpload_def upload_try_def seq_def cannot_read_def n)
qed

lemma handleUpload_no_parsed:
  assumes "file_cell st \<noteq> None" and "member j ''parsed'' = None" and "j \<noteq> JNull"
  shows "handleUpload (Response True t (Body j)) st
           = Inr (st\<lparr>loading := False,
                     error := Some ''Parsing failed. Please try another resume.'',
                     store := snd (alloc_json j (store st))\<rparr>)"
proof -
  obtain data h where a: "alloc_json j (store st) = (data, h)"
    by (cases "alloc_json j (store st)")
  from get_prop_absent [OF assms(2,3), of "store st"] a
  have g: "get_prop h data ''parsed'' = Inr VUndef" by simp
  have n: "(file_cell st = None) = False" using assms(1) by simp
  show ?thesis
    by (simp add: handleUpload_def upload_try_def seq_def n a g)
qed

lemma save_thrown:
  assumes "truthy (parsedData st)" and "serialisable (store st) (parsedData st)"
  shows "save (Rejected err) now st
           = Inr (st\<lparr>console := console st @ [(''Update failed'', err)]\<rparr>)"
    and "save (Response ok t (BodyThrows err)) now st
           = Inr (st\<lparr>console := console st @ [(''Update failed'', err)]\<rparr>)"
    and "save (Response ok t (Body JNull)) now st
           = Inr (st\<lparr>console := console st @ [(''Update failed'', cannot_read)]\<rparr>)"
  using assms by (simp_all add: save_def save_try_def seq_def)

lemma save_no_url:
  assumes "truthy (parsedData st)" and "serialisable (store st) (parsedData st)"
    and "member j ''pdf_url'' = None" and "j \<noteq> JNull"
  shows "save (Response ok t (Body j)) now st
           = Inr (st\<lparr>store := snd (alloc_json j (store st))\<rparr>)"
proof -
  obtain data h where a: "alloc_json j (store st) = (data, h)"
    by (cases "alloc_json j (store st)")
  from get_prop_absent [OF assms(3,4), of "store st"] a
  have "get_prop h data ''pdf_url'' = Inr VUndef" by simp
  then show ?thesis
    using assms(1,2) a by (simp add: save_def save_try_def seq_def)
qed

lemma save_status_blind: "save (Response ok t b) now st = save (Response ok' t' b) now st"
  by (simp add: save_def save_try_def)

lemma save_circular:
  assumes "truthy (parsedData st)" and "\<not> serialisable (store st) (parsedData st)"
  shows "save r now st = Inr (st\<lparr>console := console st @ [(''Update failed'', circular)]\<rparr>)"
  using assms by (simp add: save_def save_try_def)

lemma save_nothing_loaded: "\<not> truthy (parsedData st) \<Longrightarrow> save r now st = Inr st"
  by (simp add: save_def)

text \<open>
  Claim C7, as amended. With a file selected, each failing upload returns with the error
  message set: to the message of the thrown \<^verbatim>\<open>Error\<close> as it is, to
  \<^verbatim>\<open>An unknown error occurred.\<close> for any other thrown value, to
  \<^verbatim>\<open>Upload failed: \<close> and the status text for a non-success status, and to
  \<^verbatim>\<open>Parsing failed. Please try another resume.\<close> for a body without \<^verbatim>\<open>parsed\<close>.
  Neither handler lets a thrown value out. No save writes the error message. With a
  document loaded, a save whose request, body or serialisation throws leaves the session
  as it was but for one console line, \<^verbatim>\<open>Update failed\<close> with the thrown value (reading
  \<^verbatim>\<open>pdf_url\<close> of a \<^verbatim>\<open>null\<close> body throws too); a save answered by any other body
  without \<^verbatim>\<open>pdf_url\<close> leaves it as it was but for the cells of that body; and the
  status of the answer makes no difference to a save.
\<close>

theorem failures_caught:
  "(file_cell st \<noteq> None \<longrightarrow>
       handleUpload (Rejected (ErrorObj m)) st
         = Inr (st\<lparr>loading := False, error := Some m\<rparr>)
     \<and> handleUpload (Rejected OtherValue) st
         = Inr (st\<lparr>loading := False, error := Some ''An unknown error occurred.''\<rparr>)
     \<and> handleUpload (Response False t b) st
         = Inr (st\<lparr>loading := False, error := Some (''Upload failed: '' @ t)\<rparr>)
     \<and> handleUpload (Response True t (BodyThrows (ErrorObj m))) st
         = Inr (st\<lparr>loading := False, error := Some m\<rparr>)
     \<and> handleUpload (Response True t (BodyThrows OtherValue)) st
         = Inr (st\<lparr>loading := False, error := Some ''An unknown error occurred.''\<rparr>)
     \<and> handleUpload (Response True t (Body JNull)) st
         = Inr (st\<lparr>loading := False,
                   error := Some ''Cannot read properties of null or undefined''\<rparr>)
     \<and> (member j ''parsed'' = None \<and> j \<noteq> JNull \<longrightarrow>
          handleUpload (Response True t (Body j)) st
            = Inr (st\<lparr>loading := False,
                      error := Some ''Parsing failed. Please try another resume.'',
                      store := snd (alloc_json j (store st))\<rparr>)))
   \<and> (file_cell st \<noteq> None \<and> upload_failure r \<longrightarrow>
        (\<exists>st' message. handleUpload r st = Inr st' \<and> error st' = Some message))
   \<and> (\<exists>st'. handleUpload r st = Inr st')
   \<and> (\<forall>e. handleUpload r st \<noteq> Inl (Throws e))
   \<and> (\<forall>e. save r now st \<noteq> Inl (Throws e))
   \<and> (\<forall>st'. save r now st = Inr st' \<longrightarrow> error st' = error st)
   \<and> save (Response ok t b) now st = save (Response ok' t' b) now st
   \<and> (\<not> truthy (parsedData st) \<longrightarrow> save r now st = Inr st)
   \<and> (truthy (parsedData st) \<and> \<not> serialisable (store st) (parsedData st) \<longrightarrow>
        save r now st
          = Inr (st\<lparr>console := console st @ [(''Update failed'', circular)]\<rparr>))
   \<and> (truthy (parsedData st) \<and> serialisable (store st) (parsedData st) \<longrightarrow>
          save (Rejected err) now st
            = Inr (st\<lparr>console := console st @ [(''Update failed'', err)]\<rparr>)
        \<and> save (Response ok t (BodyThrows err)) now st
            = Inr (st\<lparr>console := console st @ [(''Update failed'', err)]\<rparr>)
        \<and> save (Response ok t (Body JNull)) now st
            = Inr (st\<lparr>console := console st @ [(''Update failed'', cannot_read)]\<rparr>)
        \<and> (member j ''pdf_url'' = None \<and> j \<noteq> JNull \<longrightarrow>
             save (Response ok t (Body j)) now st
               = Inr (st\<lparr>store := snd (alloc_json j (store st))\<rparr>)))"
proof -
  have upload: "handleUpload (Rejected (ErrorObj m)) st
         = Inr (st\<lparr>loading := False, error := Some m\<rparr>)
     \<and> handleUpload (Rejected OtherValue) st
         = Inr (st\<lparr>loading := False, error := Some ''An unknown error occurred.''\<rparr>)
     \<and> handleUpload (Response False t b) st
         = Inr (st\<lparr>loading := False, error := Some (''Upload failed: '' @ t)\<rparr>)
     \<and> handleUpload (Response True t (BodyThrows (ErrorObj m))) st
         = Inr (st\<lparr>loading := False, error := Some m\<rparr>)
     \<and> handleUpload (Response True t (BodyThrows OtherValue)) st
         = Inr (st\<lparr>loading := False, error := Some ''An unknown error occurred.''\<rparr>)
     \<and> handleUpload (Response True t (Body JNull)) st
         = Inr (st\<lparr>loading := False,
                   error := Some ''Cannot read properties of null or undefined''\<rparr>)
     \<and> (member j ''parsed'' = None \<and> j \<noteq> JNull \<longrightarrow>
          handleUpload (Response True t (Body j)) st
            = Inr (st\<lparr>loading := False,
                      error := Some ''Parsing failed. Please try another resume.'',
                      store := snd (alloc_json j (store st))\<rparr>))"
    if f: "file_cell st \<noteq> None"
    using handleUpload_thrown [OF f] handleUpload_no_parsed [OF f] by blast
  have general: "\<exists>st' message. handleUpload r st = Inr st' \<and> error st' = Some message"
    if "file_cell st \<noteq> None \<and> upload_failure r"
    using that handleUpload_failure [of st r] by blast
  have kept: "error st' = error st" if "save r now st = Inr st'" for st'
    using save_result [OF that] by blast
  have thrown: "save (Rejected err) now st
            = Inr (st\<lparr>console := console st @ [(''Update failed'', err)]\<rparr>)
        \<and> save (Response ok t (BodyThrows err)) now st
            = Inr (st\<lparr>console := console st @ [(''Update failed'', err)]\<rparr>)
        \<and> save (Response ok t (Body JNull)) now st
            = Inr (st\<lparr>console := console st @ [(''Update failed'', cannot_read)]\<rparr>)
        \<and> (member j ''pdf_url'' = None \<and> j \<noteq> JNull \<longrightarrow>
             save (Response ok t (Body j)) now st
               = Inr (st\<lparr>store := snd (alloc_json j (store st))\<rparr>))"
    if h: "truthy (parsedData st) \<and> serialisable (store st) (parsedData st)"
    using save_thrown [of st] save_no_url [of st j] h by blast
  show ?thesis
    using upload general kept thrown handleUpload_returns [of r st]
          handleUpload_never_throws [of r st] save_never_throws [of r now st]
          save_status_blind [of ok t b now st ok' t'] save_nothing_loaded [of st r now]
          save_circular [of st r now]
    by blast
qed

lemma closed_loaded: "closed (store loaded) \<and> allocated (store loaded) (parsedData loaded)"
  by (simp add: closed_def loaded_def jane_store_def)

lemma loaded_cells: "file_cell loaded \<noteq> None \<and> parsedData loaded = VRef 4 \<and> error loaded = None"
  by (simp add: loaded_def)

lemma selected_cells: "file_cell selected \<noteq> None \<and> parsedData selected = VNull"
  by (simp add: selected_def initial_def)

theorem upload_failure_keeps_document_witness:
  "file_cell selected \<noteq> None
   \<and> upload_failure (Response False ''Internal Server Error'' (Body JNull))
   \<and> platform_worded (Response False ''Internal Server Error'' (Body JNull))
   \<and> (\<exists>st' m. handleUpload (Response False ''Internal Server Error'' (Body JNull)) selected
                  = Inr st'
          \<and> parsedData st' = VNull \<and> error st' = Some m \<and> m \<noteq> [])
   \<and> file_cell loaded \<noteq> None
   \<and> upload_failure (Rejected (ErrorObj ''Failed to fetch''))
   \<and> platform_worded (Rejected (ErrorObj ''Failed to fetch''))
   \<and> closed (store loaded) \<and> allocated (store loaded) (parsedData loaded)
   \<and> document loaded = Some (map_of [(''full_name'', VStr ''Jane Doe''),
          (''education'', VRef 2), (''technical_skills'', VRef 3)])
   \<and> (\<exists>st' m. handleUpload (Rejected (ErrorObj ''Failed to fetch'')) loaded = Inr st'
          \<and> parsedData st' = VRef 4
          \<and> document st' = Some (map_of [(''full_name'', VStr ''Jane Doe''),
                 (''education'', VRef 2), (''technical_skills'', VRef 3)])
          \<and> snapshot 3 (store st') (VRef 4) = snapshot 3 (store loaded) (VRef 4)
          \<and> error st' = Some m \<and> m \<noteq> [])"
proof -
  let ?r1 = "Response False ''Internal Server Error'' (Body JNull)"
  let ?r2 = "Rejected (ErrorObj ''Failed to fetch'')"
  have f1: "upload_failure ?r1" "platform_worded ?r1" by (simp_all add: upload_failure_def)
  have f2: "upload_failure ?r2" "platform_worded ?r2" by (simp_all add: upload_failure_def)
  have s: "file_cell selected \<noteq> None" "parsedData selected = VNull"
    using selected_cells by simp_all
  have l: "file_cell loaded \<noteq> None" "parsedData loaded = VRef 4"
    using loaded_cells by simp_all
  from upload_failure_keeps_document [OF s(1) f1] s(2)
  have a: "\<exists>st' m. handleUpload ?r1 selected = Inr st'
          \<and> parsedData st' = VNull \<and> error st' = Some m \<and> m \<noteq> []"
    by auto
  from upload_failure_keeps_document [OF l(1) f2] l(2) closed_loaded document_loaded
  have b: "\<exists>st' m. handleUpload ?r2 loaded = Inr st'
          \<and> parsedData st' = VRef 4
          \<and> document st' = Some (map_of [(''full_name'', VStr ''Jane Doe''),
                 (''education'', VRef 2), (''technical_skills'', VRef 3)])
          \<and> snapshot 3 (store st') (VRef 4) = snapshot 3 (store loaded) (VRef 4)
          \<and> error st' = Some m \<and> m \<noteq> []"
    by auto
  show ?thesis
    using a b f1 f2 s(1) l(1) closed_loaded document_loaded by blast
qed

theorem save_keeps_document_witness:
  "pdf_url_text (Response True ''OK'' (Body (JObj [(''pdf_url'', JStr ''http://x/r2.pdf'')])))
   \<and> closed (store loaded) \<and> allocated (store loaded) (parsedData loaded)
   \<and> document loaded = Some (map_of [(''full_name'', VStr ''Jane Doe''),
          (''education'', VRef 2), (''technical_skills'', VRef 3)])
   \<and> (\<exists>st'. save (Response True ''OK'' (Body (JObj [(''pdf_url'', JStr ''http://x/r2.pdf'')])))
                7 loaded = Inr st'
          \<and> parsedData st' = VRef 4
          \<and> document st' = Some (map_of [(''full_name'', VStr ''Jane Doe''),
                 (''education'', VRef 2), (''technical_skills'', VRef 3)])
          \<and> snapshot 3 (store st') (VRef 4) = snapshot 3 (store loaded) (VRef 4))"
proof -
  let ?r = "Response True ''OK'' (Body (JObj [(''pdf_url'', JStr ''http://x/r2.pdf'')]))"
  have t: "pdf_url_text ?r" by simp
  note k = save_keeps_document [of ?r 7 loaded]
  from k t obtain st' where run: "save ?r 7 loaded = Inr st'" by blast
  from k run loaded_cells closed_loaded document_loaded
  have "parsedData st' = VRef 4
          \<and> document st' = Some (map_of [(''full_name'', VStr ''Jane Doe''),
                 (''education'', VRef 2), (''technical_skills'', VRef 3)])
          \<and> snapshot 3 (store st') (VRef 4) = snapshot 3 (store loaded) (VRef 4)"
    by auto
  with run t closed_loaded document_loaded show ?thesis by blast
qed

text \<open>
  Claim C7 as the specification words it fails for a save: when the request is rejected
  the session's error message stays unset and the only trace is a console line; when the
  server answers with an error status and a body without \<^verbatim>\<open>pdf_url\<close> there is no trace
  at all.
\<close>

theorem save_failure_sets_no_message:
  "save (Rejected (ErrorObj ''Failed to fetch'')) 7 loaded
     = Inr (loaded\<lparr>console := [(''Update failed'', ErrorObj ''Failed to fetch'')]\<rparr>)
   \<and> error (loaded\<lparr>console := [(''Update failed'', ErrorObj ''Failed to fetch'')]\<rparr>) = None
   \<and> save (Response False ''Internal Server Error'' (Body (JObj []))) 7 loaded
     = Inr (loaded\<lparr>store := jane_store @ [Obj []]\<rparr>)
   \<and> error (loaded\<lparr>store := jane_store @ [Obj []]\<rparr>) = None
   \<and> console (loaded\<lparr>store := jane_store @ [Obj []]\<rparr>) = []"
  by (simp add: save_def save_try_def serialisable_def seq_def alloc_def lookup_def
                loaded_def jane_store_def cell_at_def)

theorem failures_caught_witness:
  "file_cell selected \<noteq> None
   \<and> handleUpload (Rejected (ErrorObj ''Failed to fetch'')) selected
       = Inr (selected\<lparr>loading := False, error := Some ''Failed to fetch''\<rparr>)
   \<and> handleUpload (Response False ''Internal Server Error'' (Body JNull)) selected
       = Inr (selected\<lparr>loading := False,
                      error := Some ''Upload failed: Internal Server Error''\<rparr>)
   \<and> member (JObj []) ''parsed'' = None \<and> JObj [] \<noteq> JNull
   \<and> handleUpload (Response True ''OK'' (Body (JObj []))) selected
       = Inr (selected\<lparr>loading := False,
                      error := Some ''Parsing failed. Please try another resume.'',
                      store := [Obj []]\<rparr>)
   \<and> truthy (parsedData loaded) \<and> serialisable (store loaded) (parsedData loaded)
   \<and> save (Rejected (ErrorObj ''Failed to fetch'')) 7 loaded
       = Inr (loaded\<lparr>console := [(''Update failed'', ErrorObj ''Failed to fetch'')]\<rparr>)
   \<and> member (JObj []) ''pdf_url'' = None
   \<and> save (Response False ''Internal Server Error'' (Body (JObj []))) 7 loaded
       = Inr (loaded\<lparr>store := jane_store @ [Obj []]\<rparr>)
   \<and> save (Response False ''Internal Server Error'' (Body (JObj []))) 7 loaded
       = save (Response True ''OK'' (Body (JObj []))) 7 loaded
   \<and> \<not> truthy (parsedData selected)
   \<and> save (Rejected (ErrorObj ''Failed to fetch'')) 7 selected = Inr selected
   \<and> truthy (parsedData knot) \<and> \<not> serialisable (store knot) (parsedData knot)
   \<and> save (Rejected (ErrorObj ''Failed to fetch'')) 7 knot
       = Inr (knot\<lparr>console := [(''Update failed'', circular)]\<rparr>)"
proof -
  let ?r = "Rejected (ErrorObj ''Failed to fetch'')"
  have s: "file_cell selected \<noteq> None" "\<not> truthy (parsedData selected)"
    "store selected = []" "console selected = []"
    by (simp_all add: selected_def initial_def)
  have l: "truthy (parsedData loaded)" "serialisable (store loaded) (parsedData loaded)"
    "store loaded = jane_store" "console loaded = []"
    by (simp_all add: loaded_def serialisable_def jane_store_def cell_at_def)
  have k: "truthy (parsedData knot)" "\<not> serialisable (store knot) (parsedData knot)"
    "console knot = []"
    by (simp_all add: knot_def initial_def serialisable_def cell_at_def)
  have j: "member (JObj []) ''parsed'' = None" "JObj [] \<noteq> JNull"
    "member (JObj []) ''pdf_url'' = None"
    by simp_all
  have a: "snd (alloc_json (JObj []) h) = h @ [Obj []]" for h
    by (simp add: alloc_def)
  note up = failures_caught [where st = selected and m = "''Failed to fetch''"
      and t = "''Internal Server Error''" and b = "Body JNull" and j = "JObj []" and r = ?r
      and now = 7]
  note up2 = failures_caught [where st = selected and t = "''OK''" and j = "JObj []"]
  note sv = failures_caught [where st = loaded and err = "ErrorObj ''Failed to fetch''"
      and now = 7 and j = "JObj []" and ok = False and t = "''Internal Server Error''"
      and b = "Body (JObj [])" and ok' = True and t' = "''OK''"]
  note kn = failures_caught [where st = knot and r = ?r and now = 7]
  from up s(1) have u1: "handleUpload ?r selected
       = Inr (selected\<lparr>loading := False, error := Some ''Failed to fetch''\<rparr>)"
    by blast
  from up s(1) have u2: "handleUpload (Response False ''Internal Server Error'' (Body JNull))
        selected = Inr (selected\<lparr>loading := False,
                      error := Some ''Upload failed: Internal Server Error''\<rparr>)"
    by simp
  from up2 s(1) j have "handleUpload (Response True ''OK'' (Body (JObj []))) selected
       = Inr (selected\<lparr>loading := False,
                      error := Some ''Parsing failed. Please try another resume.'',
                      store := snd (alloc_json (JObj []) (store selected))\<rparr>)"
    by blast
  then have u3: "handleUpload (Response True ''OK'' (Body (JObj []))) selected
       = Inr (selected\<lparr>loading := False,
                      error := Some ''Parsing failed. Please try another resume.'',
                      store := [Obj []]\<rparr>)"
    by (simp only: a s(3) append_Nil)
  from sv l(1,2) have "save ?r 7 loaded
       = Inr (loaded\<lparr>console := console loaded @ [(''Update failed'', ErrorObj ''Failed to fetch'')]\<rparr>)"
    by blast
  then have s1: "save ?r 7 loaded
       = Inr (loaded\<lparr>console := [(''Update failed'', ErrorObj ''Failed to fetch'')]\<rparr>)"
    by (simp add: l(4))
  from sv l(1,2) j have "save (Response False ''Internal Server Error'' (Body (JObj []))) 7 loaded
       = Inr (loaded\<lparr>store := snd (alloc_json (JObj []) (store loaded))\<rparr>)"
    by blast
  then have s2: "save (Response False ''Internal Server Error'' (Body (JObj []))) 7 loaded
       = Inr (loaded\<lparr>store := jane_store @ [Obj []]\<rparr>)"
    by (simp only: a l(3))
  from sv have s3: "save (Response False ''Internal Server Error'' (Body (JObj []))) 7 loaded
       = save (Response True ''OK'' (Body (JObj []))) 7 loaded"
    by blast
  from up s(2) have s4: "save ?r 7 selected = Inr selected" by blast
  from kn k(1,2) have "save ?r 7 knot
       = Inr (knot\<lparr>console := console knot @ [(''Update failed'', circular)]\<rparr>)"
    by blast
  then have s5: "save ?r 7 knot = Inr (knot\<lparr>console := [(''Update failed'', circular)]\<rparr>)"
    by (simp add: k(3))
  show ?thesis
    using s(1,2) l(1,2) k(1,2) j u1 u2 u3 s1 s2 s3 s4 s5 by simp
qed

section \<open>Editing a subfield of an entry\<close>

lemma snapshot_apart:
  assumes "closed h" and "allocated h w" and "\<not> reaches n h e w"
  shows "snapshot n (h[e := c] @ h2) w = snapshot n h w"
proof (rule snapshot_frame)
  fix b assume r: "reaches n h b w"
  with assms(3) have "b \<noteq> e" by auto
  moreover from reaches_in_store [OF assms(1,2) r] have "b < length h" .
  ultimately show "cell_at (h[e := c] @ h2) b = cell_at h b"
    by (simp add: cell_at_def nth_append)
qed

lemma updateEntryField_run:
  assumes "parsedData st = VRef d" and "cell_at (store st) d = Some (Obj ps)"
    and "map_of ps f = Some (VRef a)" and "cell_at (store st) a = Some (Arr xs)"
    and "i < length xs" and "xs ! i = VRef e" and "cell_at (store st) e = Some (Obj eps)"
    and "d \<noteq> e"
  shows "updateEntryField f i s v st =
           Inr (st\<lparr>parsedData := VRef (Suc (length (store st))),
                   store := (store st)[e := Obj (AList.update s v eps)]
                            @ [Arr xs, Obj (AList.update f (VRef (length (store st))) ps)]\<rparr>)"
proof -
  let ?h1 = "(store st)[e := Obj (AList.update s v eps)]"
  have d: "d < length (store st)" using assms(2) by (rule cell_at_Some_less)
  have "cell_at (?h1 @ [Arr xs]) d = Some (Obj ps)"
    using assms(2,8) d by (simp add: cell_at_def nth_append)
  then have p: "props (st\<lparr>store := ?h1 @ [Arr xs]\<rparr>) = Some ps"
    using assms(1) by (simp add: props_def)
  have g: "get_prop (store st) (parsedData st) f = Inr (VRef a)"
    using assms(1,2,3) by (simp add: lookup_def)
  have sp: "spread (store st) (VRef a) = Inr xs" using assms(4) by simp
  have se: "set_prop (store st) (index xs i) s v = Inr ?h1"
    using assms(5,6,7) by (simp add: index_def)
  show ?thesis
    using handleFieldChange_props [OF p, of f "VRef (length (store st))"]
    by (simp add: updateEntryField_def seq_def g sp se alloc_def
             del: spread.simps set_prop.simps get_prop.simps)
qed

lemma map_of_cell_val: "map_of ps k = Some w \<Longrightarrow> w \<in> set (cell_vals (Obj ps))"
  by (auto dest: map_of_SomeD intro: rev_image_eqI)

text \<open>
  Claim C5. Let entry \<open>i\<close> of list field \<open>f\<close> be the object at \<open>e\<close>, and let the
  document refer to that object from this one place only: read to depth \<open>n\<close>, no other
  subfield of the entry, no other entry of the list and no other field of the document
  reaches \<open>e\<close> (as in every document that \<^verbatim>\<open>res.json()\<close> and these handlers
  build, where every entry is an object of its own). Then the edit of subfield \<open>s\<close>
  leaves a document whose other fields hold the values they held, whose list \<open>f\<close> has
  the same entries, and whose entry \<open>i\<close> has \<open>s\<close> bound to the new value and its other
  subfields bound as before; and each of those other subfields, entries and fields reads
  the same, to depth \<open>n\<close>, as before the edit.
\<close>

theorem updateEntryField_frame:
  assumes closed: "closed (store st)"
    and doc: "document st = Some D"
    and field: "D f = Some (VRef a)" "array_at (store st) (VRef a) = Some xs"
    and entry: "i < length xs" "xs ! i = VRef e" "object_at (store st) (VRef e) = Some E"
    and self: "parsedData st \<noteq> VRef e"
    and subfields: "\<forall>t w. t \<noteq> s \<and> E t = Some w \<longrightarrow> \<not> reaches n (store st) e w"
    and entries: "\<forall>j. j < length xs \<and> j \<noteq> i \<longrightarrow> \<not> reaches n (store st) e (xs ! j)"
    and fields: "\<forall>g w. g \<noteq> f \<and> D g = Some w \<longrightarrow> \<not> reaches n (store st) e w"
  shows "\<exists>st'. updateEntryField f i s v st = Inr st'
           \<and> document st' = Some (D(f \<mapsto> VRef (length (store st))))
           \<and> elements st' f = Some xs
           \<and> object_at (store st') (xs ! i) = Some (E(s \<mapsto> v))
           \<and> (\<forall>t w. t \<noteq> s \<and> E t = Some w \<longrightarrow>
                  snapshot n (store st') w = snapshot n (store st) w)
           \<and> (\<forall>j. j < length xs \<and> j \<noteq> i \<longrightarrow>
                  snapshot n (store st') (xs ! j) = snapshot n (store st) (xs ! j))
           \<and> (\<forall>g w. g \<noteq> f \<and> D g = Some w \<longrightarrow>
                  snapshot n (store st') w = snapshot n (store st) w)"
proof -
  let ?h = "store st"
  from field(1) doc obtain d ps where d: "parsedData st = VRef d"
    and ps: "cell_at ?h d = Some (Obj ps)" and D: "D = map_of ps"
    by (auto simp: document_def props_def split: val.splits option.splits cell.splits)
  from field(2) have a: "cell_at ?h a = Some (Arr xs)"
    by (auto simp: array_at_def split: option.splits cell.splits)
  from entry(3) obtain eps where e: "cell_at ?h e = Some (Obj eps)" and E: "E = map_of eps"
    by (auto simp: object_at_def split: option.splits cell.splits)
  have de: "d \<noteq> e" using self d by simp
  have lt: "d < length ?h" "a < length ?h" "e < length ?h"
    using ps a e by (auto dest: cell_at_Some_less)
  let ?h' = "?h[e := Obj (AList.update s v eps)]
             @ [Arr xs, Obj (AList.update f (VRef (length ?h)) ps)]"
  let ?st' = "st\<lparr>parsedData := VRef (Suc (length ?h)), store := ?h'\<rparr>"
  have run: "updateEntryField f i s v st = Inr ?st'"
    using d ps field(1) [unfolded D] a entry(1,2) e de by (rule updateEntryField_run)
  have doc': "document ?st' = Some (D(f \<mapsto> VRef (length ?h)))"
    by (simp add: document_def props_def cell_at_def nth_append D update_conv')
  have "array_at ?h' (VRef (length ?h)) = Some xs"
    by (simp add: array_at_def cell_at_def nth_append)
  then have els: "elements ?st' f = Some xs"
    by (simp add: elements_def doc')
  have obj: "object_at ?h' (xs ! i) = Some (E(s \<mapsto> v))"
    using lt(3) by (simp add: entry(2) object_at_def cell_at_def nth_append E update_conv')
  have frame: "snapshot n ?h' w = snapshot n ?h w"
    if "allocated ?h w" and "\<not> reaches n ?h e w" for w
    using closed that by (rule snapshot_apart)
  have sub: "snapshot n ?h' w = snapshot n ?h w" if "t \<noteq> s \<and> E t = Some w" for t w
  proof (rule frame)
    from that have "map_of eps t = Some w" by (simp add: E)
    then have "w \<in> set (cell_vals (Obj eps))" by (rule map_of_cell_val)
    with closed e show "allocated ?h w" by (rule closed_cell)
    from subfields that show "\<not> reaches n ?h e w" by blast
  qed
  have ent: "snapshot n ?h' (xs ! j) = snapshot n ?h (xs ! j)"
    if "j < length xs \<and> j \<noteq> i" for j
  proof (rule frame)
    from that have "xs ! j \<in> set (cell_vals (Arr xs))" by simp
    with closed a show "allocated ?h (xs ! j)" by (rule closed_cell)
    from entries that show "\<not> reaches n ?h e (xs ! j)" by blast
  qed
  have fld: "snapshot n ?h' w = snapshot n ?h w" if "g \<noteq> f \<and> D g = Some w" for g w
  proof (rule frame)
    from that have "map_of ps g = Some w" by (simp add: D)
    then have "w \<in> set (cell_vals (Obj ps))" by (rule map_of_cell_val)
    with closed ps show "allocated ?h w" by (rule closed_cell)
    from fields that show "\<not> reaches n ?h e w" by blast
  qed
  show ?thesis
    using run doc' els obj sub ent fld
    by (intro exI [of _ ?st']) simp
qed

lemma loaded_education_entry:
  "document loaded = Some (map_of [(''full_name'', VStr ''Jane Doe''), (''education'', VRef 2),
                                   (''technical_skills'', VRef 3)])
   \<and> map_of [(''full_name'', VStr ''Jane Doe''), (''education'', VRef 2),
             (''technical_skills'', VRef 3)] ''education'' = Some (VRef 2)
   \<and> array_at (store loaded) (VRef 2) = Some [VRef 0, VRef 1]
   \<and> (0::nat) < length [VRef 0, VRef 1] \<and> [VRef 0, VRef 1] ! 0 = VRef 0
   \<and> object_at (store loaded) (VRef 0)
         = Some (map_of [(''degree'', VStr ''BSc''), (''institution'', VStr ''MIT'')])
   \<and> parsedData loaded \<noteq> VRef 0"
  using document_loaded
  by (simp add: array_at_def object_at_def cell_at_def loaded_def jane_store_def)

lemma loaded_entry_unshared:
  "(\<forall>t w. t \<noteq> ''degree''
        \<and> map_of [(''degree'', VStr ''BSc''), (''institution'', VStr ''MIT'')] t = Some w
      \<longrightarrow> \<not> reaches 3 (store loaded) 0 w)
   \<and> (\<forall>j. j < length [VRef 0, VRef 1] \<and> j \<noteq> 0
      \<longrightarrow> \<not> reaches 3 (store loaded) 0 ([VRef 0, VRef 1] ! j))
   \<and> (\<forall>g w. g \<noteq> ''education''
        \<and> map_of [(''full_name'', VStr ''Jane Doe''), (''education'', VRef 2),
                   (''technical_skills'', VRef 3)] g = Some w
      \<longrightarrow> \<not> reaches 3 (store loaded) 0 w)"
  by (auto simp: numeral_3_eq_3 less_Suc_eq cell_at_def loaded_def jane_store_def
           split: if_splits)

theorem updateEntryField_frame_witness:
  "closed (store loaded)
   \<and> document loaded = Some (map_of [(''full_name'', VStr ''Jane Doe''),
          (''education'', VRef 2), (''technical_skills'', VRef 3)])
   \<and> map_of [(''full_name'', VStr ''Jane Doe''), (''education'', VRef 2),
             (''technical_skills'', VRef 3)] ''education'' = Some (VRef 2)
   \<and> array_at (store loaded) (VRef 2) = Some [VRef 0, VRef 1]
   \<and> (0::nat) < length [VRef 0, VRef 1] \<and> [VRef 0, VRef 1] ! 0 = VRef 0
   \<and> object_at (store loaded) (VRef 0)
         = Some (map_of [(''degree'', VStr ''BSc''), (''institution'', VStr ''MIT'')])
   \<and> parsedData loaded \<noteq> VRef 0
   \<and> \<not> reaches 3 (store loaded) 0 (VStr ''MIT'')
   \<and> \<not> reaches 3 (store loaded) 0 (VRef 1)
   \<and> \<not> reaches 3 (store loaded) 0 (VStr ''Jane Doe'')
   \<and> \<not> reaches 3 (store loaded) 0 (VRef 3)
   \<and> (\<exists>st'. updateEntryField ''education'' 0 ''degree'' (VStr ''PhD'') loaded = Inr st'
          \<and> elements st' ''education'' = Some [VRef 0, VRef 1]
          \<and> object_at (store st') (VRef 0)
               = Some (map_of [(''degree'', VStr ''PhD''), (''institution'', VStr ''MIT'')])
          \<and> snapshot 3 (store st') (VRef 1) = snapshot 3 (store loaded) (VRef 1)
          \<and> snapshot 3 (store st') (VRef 3) = snapshot 3 (store loaded) (VRef 3))"
proof -
  note h = loaded_education_entry [THEN conjunct1]
    loaded_education_entry [THEN conjunct2, THEN conjunct1]
    loaded_education_entry [THEN conjunct2, THEN conjunct2, THEN conjunct1]
    loaded_education_entry [THEN conjunct2, THEN conjunct2, THEN conjunct2, THEN conjunct1]
    loaded_education_entry [THEN conjunct2, THEN conjunct2, THEN conjunct2, THEN conjunct2,
      THEN conjunct1]
    loaded_education_entry [THEN conjunct2, THEN conjunct2, THEN conjunct2, THEN conjunct2,
      THEN conjunct2, THEN conjunct1]
    loaded_education_entry [THEN conjunct2, THEN conjunct2, THEN conjunct2, THEN conjunct2,
      THEN conjunct2, THEN conjunct2]
  note u = loaded_entry_unshared [THEN conjunct1]
    loaded_entry_unshared [THEN conjunct2, THEN conjunct1]
    loaded_entry_unshared [THEN conjunct2, THEN conjunct2]
  from updateEntryField_frame [OF closed_loaded [THEN conjunct1] h u,
         of "VStr ''PhD''"]
  obtain st' where run: "updateEntryField ''education'' 0 ''degree'' (VStr ''PhD'') loaded = Inr st'"
    and els: "elements st' ''education'' = Some [VRef 0, VRef 1]"
    and obj: "object_at (store st') ([VRef 0, VRef 1] ! 0)
                = Some ((map_of [(''degree'', VStr ''BSc''), (''institution'', VStr ''MIT'')])
                          (''degree'' \<mapsto> VStr ''PhD''))"
    and ent: "\<forall>j. j < length [VRef 0, VRef 1] \<and> j \<noteq> 0 \<longrightarrow>
                snapshot 3 (store st') ([VRef 0, VRef 1] ! j)
                  = snapshot 3 (store loaded) ([VRef 0, VRef 1] ! j)"
    and fld: "\<forall>g w. g \<noteq> ''education''
                \<and> map_of [(''full_name'', VStr ''Jane Doe''), (''education'', VRef 2),
                           (''technical_skills'', VRef 3)] g = Some w
              \<longrightarrow> snapshot 3 (store st') w = snapshot 3 (store loaded) w"
    by blast
  have m: "(map_of [(''degree'', VStr ''BSc''), (''institution'', VStr ''MIT'')])
             (''degree'' \<mapsto> VStr ''PhD'')
           = map_of [(''degree'', VStr ''PhD''), (''institution'', VStr ''MIT'')]"
    by (rule ext) simp
  from ent [rule_format, of 1]
  have e1: "snapshot 3 (store st') (VRef 1) = snapshot 3 (store loaded) (VRef 1)" by simp
  from fld [rule_format, of "''technical_skills''" "VRef 3"]
  have f3: "snapshot 3 (store st') (VRef 3) = snapshot 3 (store loaded) (VRef 3)" by simp
  from run els obj [unfolded m] e1 f3
  have "\<exists>st'. updateEntryField ''education'' 0 ''degree'' (VStr ''PhD'') loaded = Inr st'
          \<and> elements st' ''education'' = Some [VRef 0, VRef 1]
          \<and> object_at (store st') (VRef 0)
               = Some (map_of [(''degree'', VStr ''PhD''), (''institution'', VStr ''MIT'')])
          \<and> snapshot 3 (store st') (VRef 1) = snapshot 3 (store loaded) (VRef 1)
          \<and> snapshot 3 (store st') (VRef 3) = snapshot 3 (store loaded) (VRef 3)"
    by auto
  moreover have "\<not> reaches 3 (store loaded) 0 (VStr ''MIT'')
      \<and> \<not> reaches 3 (store loaded) 0 (VRef 1)
      \<and> \<not> reaches 3 (store loaded) 0 (VStr ''Jane Doe'')
      \<and> \<not> reaches 3 (store loaded) 0 (VRef 3)"
    by (simp add: numeral_3_eq_3 cell_at_def loaded_def jane_store_def)
  ultimately show ?thesis using closed_loaded loaded_education_entry by blast
qed

text \<open>
  Claim C2 at the session of Jane Doe. The document before the edit is the object at
  address 4. Read in the store before the edit its first education entry has the degree
  \<^verbatim>\<open>BSc\<close>; read in the store after the edit, the same object has the degree \<^verbatim>\<open>PhD\<close>:
  the handler copied the array and then assigned into the entry that both arrays hold.
\<close>

theorem updateEntryField_writes_previous_document:
  "parsedData loaded = VRef 4
   \<and> snapshot 3 (store loaded) (VRef 4)
       = TObj [(''full_name'', TStr ''Jane Doe''),
               (''education'',
                  TArr [TObj [(''degree'', TStr ''BSc''), (''institution'', TStr ''MIT'')],
                        TObj [(''degree'', TStr ''MSc''), (''institution'', TStr ''ETH'')]]),
               (''technical_skills'', TArr [TStr ''Go'', TStr ''Rust, Cargo''])]
   \<and> map_sum id (\<lambda>st'. (parsedData st', snapshot 3 (store st') (VRef 4)))
        (updateEntryField ''education'' 0 ''degree'' (VStr ''PhD'') loaded)
       = Inr (VRef 7,
              TObj [(''full_name'', TStr ''Jane Doe''),
               (''education'',
                  TArr [TObj [(''degree'', TStr ''PhD''), (''institution'', TStr ''MIT'')],
                        TObj [(''degree'', TStr ''MSc''), (''institution'', TStr ''ETH'')]]),
               (''technical_skills'', TArr [TStr ''Go'', TStr ''Rust, Cargo''])])"
  by (simp add: updateEntryField_def handleFieldChange_def seq_def alloc_def lookup_def
                index_def numeral_3_eq_3 loaded_def jane_store_def cell_at_def)

text \<open>
  The session used above is the one the upload handler builds from \<open>jane_response\<close>;
  the last cell of its store is the response object itself.
\<close>

lemma upload_jane: "handleUpload jane_response selected = Inr loaded"
  by (simp add: handleUpload_def upload_try_def seq_def alloc_def lookup_def cell_at_def
                jane_response_def selected_def initial_def loaded_def jane_store_def)

end
